theory Spec2Isabelle
  imports Complex_Main "HOL-Library.Sublist"
begin

section \<open>The search section: data model\<close>

text \<open>
  The component \<^verbatim>\<open>SearchSection\<close> keeps its data in React state variables. The model
  collects the variables its callbacks write in one record, \<open>searchSection\<close>, and passes it
  through every callback. JavaScript numbers that hold timestamps, delays and ids are
  integers far below \<open>2^53\<close>, where the arithmetic of doubles is exact; they are modelled
  by \<open>int\<close>. Strings are lists of 8-bit code units.
\<close>

datatype searchState =
  Input | Searching | Reading | Analyzing | Summarizing | Generating | Citing

text \<open>
  The interfaces \<^verbatim>\<open>Quote\<close>, \<^verbatim>\<open>SearchDanswerDocument\<close>, \<^verbatim>\<open>Relevance\<close>,
  \<^verbatim>\<open>SearchType\<close> and \<^verbatim>\<open>FlowType\<close> are declared in a module the component imports.
  The component reads \<^verbatim>\<open>document_id\<close> of a quote and the length of the document list,
  and nothing else of them; the remaining content is carried as an opaque string.
\<close>

record Quote =
  document_id :: string
  quote :: string

record SearchDanswerDocument =
  doc_document_id :: string
  doc_blurb :: string

type_synonym Relevance = string
type_synonym SearchType = string
type_synonym FlowType = string

text \<open>A field that is \<^verbatim>\<open>null\<close> or \<^verbatim>\<open>undefined\<close> is \<open>None\<close>.\<close>

record SearchResponse =
  answer :: "string option"
  quotes :: "Quote list option"
  documents :: "SearchDanswerDocument list option"
  suggestedSearchType :: "SearchType option"
  suggestedFlowType :: "FlowType option"
  selectedDocIndices :: "int list option"
  error :: "string option"
  messageId :: "int option"
  additional_relevance :: "Relevance option"

text \<open>The callbacks that \<^verbatim>\<open>setTimeout\<close> is given, by the phase they ask for.\<close>

datatype timeout = ToReading | ToAnalyzing | ToGenerating

text \<open>
  What \<^verbatim>\<open>onSearch\<close> hands to \<^verbatim>\<open>searchRequestStreamed\<close>: the query, the flags, and the
  cancellation token its callbacks are bound to.
\<close>

record searchFnArgs =
  req_query :: string
  req_agentic :: "bool option"
  req_token :: nat
  req_selectedSearchType :: SearchType
  req_offset :: int

text \<open>
  \<open>tokens\<close> is the heap of \<^verbatim>\<open>CancellationToken\<close> objects (a token is its index, the
  entry is its cancelled flag), \<open>timers\<close> the pending \<^verbatim>\<open>setTimeout\<close> callbacks with
  the time each is due, \<open>requests\<close> the streamed requests issued so far.
\<close>

record searchSection =
  searchResponse :: SearchResponse
  searchState :: searchState
  analyzeStartTime :: int
  isFetching :: bool
  comments :: "string option"
  contentEnriched :: bool
  sweep :: bool
  firstSearch :: bool
  searchAnswerExpanded :: bool
  agenticResults :: "bool option"
  tokens :: "bool list"
  lastSearchCancellationToken :: "nat option"
  timers :: "(int \<times> timeout) list"
  requests :: "searchFnArgs list"

text \<open>
  A callback reads the component's constants through its closure: it sees the values
  of the render that created it, which need not be the current state. These values are
  an explicit argument of every callback.
\<close>

record scope =
  query :: string
  agentic :: bool
  disabledAgentic :: bool
  seenAnalyzeStartTime :: int
  selectedSearchType :: SearchType
  defaultOffset :: int

text \<open>
  The scope of a render of the component in state \<open>st\<close>: the constant
  \<^verbatim>\<open>analyzeStartTime\<close> is the value the state variable has when the render runs.
  \<^verbatim>\<open>onSearch\<close> hands the callbacks of the render it runs in to the stream, so all events
  of a query see the scope of the render in which the query was submitted.
\<close>

definition renderedIn :: "searchSection \<Rightarrow> scope \<Rightarrow> scope" where
  "renderedIn st sc = sc\<lparr>seenAnalyzeStartTime := analyzeStartTime st\<rparr>"

record SearchRequestOverrides =
  ov_searchType :: "SearchType option"
  ov_agentic :: "bool option"
  ov_offset :: "int option"
  ov_overrideMessage :: "string option"

section \<open>The search section: callbacks\<close>

definition newSearchState :: "searchState \<Rightarrow> searchState \<Rightarrow> searchState" where
  "newSearchState currentSearchState new =
     (if currentSearchState \<noteq> Input then new else Input)"

definition initialSearchResponse :: SearchResponse where
  "initialSearchResponse =
     \<lparr>answer = None, quotes = None, documents = None, suggestedSearchType = None,
      suggestedFlowType = None, selectedDocIndices = None, error = None,
      messageId = None, additional_relevance = None\<rparr>"

text \<open>\<^verbatim>\<open>setTimeout(cb, delay)\<close> called at time \<open>now\<close>; a negative delay counts as 0.\<close>

definition setTimeout :: "int \<Rightarrow> timeout \<Rightarrow> int \<Rightarrow> searchSection \<Rightarrow> searchSection" where
  "setTimeout now cb delay st = st\<lparr>timers := timers st @ [(now + max 0 delay, cb)]\<rparr>"

text \<open>\<^verbatim>\<open>Math.ceil(a / b)\<close> for integers \<open>a\<close> and \<open>b > 0\<close>.\<close>

definition Math_ceil_div :: "int \<Rightarrow> int \<Rightarrow> int" where
  "Math_ceil_div a b = - ((- a) div b)"

definition updateCurrentAnswer :: "scope \<Rightarrow> int \<Rightarrow> string \<Rightarrow> searchSection \<Rightarrow> searchSection" where
  "updateCurrentAnswer sc now a st =
     (let st1 = st\<lparr>searchResponse := (searchResponse st)\<lparr>answer := Some a\<rparr>\<rparr>
      in if seenAnalyzeStartTime sc \<noteq> 0 then
           (let elapsedTime = now - seenAnalyzeStartTime sc;
                nextInterval = Math_ceil_div elapsedTime 1500 * 1500
            in setTimeout now ToGenerating (nextInterval - elapsedTime) st1)
         else st1)"

definition updateQuotes :: "Quote list \<Rightarrow> searchSection \<Rightarrow> searchSection" where
  "updateQuotes qs st =
     st\<lparr>searchResponse := (searchResponse st)\<lparr>quotes := Some qs\<rparr>, searchState := Input\<rparr>"

definition updateDocs ::
  "scope \<Rightarrow> int \<Rightarrow> SearchDanswerDocument list \<Rightarrow> searchSection \<Rightarrow> searchSection" where
  "updateDocs sc now ds st =
     (let st1 = (if agentic sc
                 then setTimeout now ToAnalyzing 4500 (setTimeout now ToReading 1500 st)
                 else st);
          st2 = st1\<lparr>searchResponse := (searchResponse st1)\<lparr>documents := Some ds\<rparr>\<rparr>;
          st3 = (if disabledAgentic sc
                 then st2\<lparr>isFetching := False, searchState := Input\<rparr> else st2)
      in if length ds = 0 then st3\<lparr>searchState := Input\<rparr> else st3)"

definition updateSuggestedSearchType :: "SearchType \<Rightarrow> searchSection \<Rightarrow> searchSection" where
  "updateSuggestedSearchType t st =
     st\<lparr>searchResponse := (searchResponse st)\<lparr>suggestedSearchType := Some t\<rparr>\<rparr>"

definition updateSuggestedFlowType :: "FlowType \<Rightarrow> searchSection \<Rightarrow> searchSection" where
  "updateSuggestedFlowType t st =
     st\<lparr>searchResponse := (searchResponse st)\<lparr>suggestedFlowType := Some t\<rparr>\<rparr>"

definition updateSelectedDocIndices :: "int list \<Rightarrow> searchSection \<Rightarrow> searchSection" where
  "updateSelectedDocIndices docIndices st =
     st\<lparr>searchResponse := (searchResponse st)\<lparr>selectedDocIndices := Some docIndices\<rparr>\<rparr>"

definition resetInput :: "bool \<Rightarrow> searchSection \<Rightarrow> searchSection" where
  "resetInput finalized st =
     st\<lparr>sweep := False, firstSearch := False, comments := None,
        searchState := (if finalized then Input else Searching),
        searchAnswerExpanded := False\<rparr>"

definition updateError :: "string \<Rightarrow> searchSection \<Rightarrow> searchSection" where
  "updateError e st =
     (let st1 = resetInput True st
      in st1\<lparr>searchResponse := (searchResponse st1)\<lparr>error := Some e\<rparr>\<rparr>)"

text \<open>\<^verbatim>\<open>router.refresh()\<close> touches nothing of the record.\<close>

definition updateMessageAndThreadId :: "int \<Rightarrow> int \<Rightarrow> searchSection \<Rightarrow> searchSection" where
  "updateMessageAndThreadId mid chat_session_id st =
     st\<lparr>searchResponse := (searchResponse st)\<lparr>messageId := Some mid\<rparr>,
        isFetching := False, searchState := Input\<rparr>"

definition updateDocumentRelevance :: "scope \<Rightarrow> Relevance \<Rightarrow> searchSection \<Rightarrow> searchSection" where
  "updateDocumentRelevance sc relevance st =
     st\<lparr>searchResponse := (searchResponse st)\<lparr>additional_relevance := Some relevance\<rparr>,
        contentEnriched := True, isFetching := False,
        searchState := (if disabledAgentic sc then Input else Analyzing)\<rparr>"

definition updateComments :: "string \<Rightarrow> searchSection \<Rightarrow> searchSection" where
  "updateComments c st = st\<lparr>comments := Some c\<rparr>"

definition finishedSearching :: "scope \<Rightarrow> searchSection \<Rightarrow> searchSection" where
  "finishedSearching sc st = (if disabledAgentic sc then st\<lparr>searchState := Input\<rparr> else st)"

subsection \<open>Timers\<close>

text \<open>
  The body of each \<^verbatim>\<open>setTimeout\<close> callback, run at time \<open>now\<close>. The one for
  \<^verbatim>\<open>"analyzing"\<close> stores \<^verbatim>\<open>Date.now()\<close> first, whatever the phase is, and once more
  when the guarded transition gives \<^verbatim>\<open>"analyzing"\<close>.
\<close>

definition fire :: "int \<Rightarrow> timeout \<Rightarrow> searchSection \<Rightarrow> searchSection" where
  "fire now cb st =
     (case cb of
        ToReading \<Rightarrow> st\<lparr>searchState := newSearchState (searchState st) Reading\<rparr>
      | ToAnalyzing \<Rightarrow>
          (let st1 = st\<lparr>analyzeStartTime := now\<rparr>;
               newState = newSearchState (searchState st1) Analyzing;
               st2 = (if newState = Analyzing then st1\<lparr>analyzeStartTime := now\<rparr> else st1)
           in st2\<lparr>searchState := newState\<rparr>)
      | ToGenerating \<Rightarrow> st\<lparr>searchState := newSearchState (searchState st) Generating\<rparr>)"

text \<open>
  The event loop up to time \<open>now\<close>: every pending timer that is due runs, in the order
  of the due times (timers due together run in the order they were set), each at the
  time it is due; the others stay pending.
\<close>

definition runTimers :: "int \<Rightarrow> searchSection \<Rightarrow> searchSection" where
  "runTimers now st =
     foldl (\<lambda>s (due, cb). fire due cb s)
       (st\<lparr>timers := filter (\<lambda>(due, cb). \<not> due \<le> now) (timers st)\<rparr>)
       (sort_key fst (filter (\<lambda>(due, cb). due \<le> now) (timers st)))"

subsection \<open>Cancellation\<close>

text \<open>
  The class \<^verbatim>\<open>CancellationToken\<close> and the function \<^verbatim>\<open>cancellable\<close> belong to the
  module \<^verbatim>\<open>lib/search/cancellable\<close>, which the component imports.
\<close>

text \<open>
  Modelled from the spec: the constructor of \<^verbatim>\<open>CancellationToken\<close>. A token owns a
  boolean cancelled flag, which is false when the token is created.
\<close>

definition newCancellationToken :: "searchSection \<Rightarrow> nat \<times> searchSection" where
  "newCancellationToken st = (length (tokens st), st\<lparr>tokens := tokens st @ [False]\<rparr>)"

text \<open>
  Modelled from the spec: the method \<^verbatim>\<open>cancel\<close> of \<^verbatim>\<open>CancellationToken\<close>, which
  marks the token cancelled.
\<close>

definition cancel :: "nat \<Rightarrow> searchSection \<Rightarrow> searchSection" where
  "cancel t st = st\<lparr>tokens := (tokens st)[t := True]\<rparr>"

text \<open>
  Modelled from the spec: the read of the cancelled flag of a \<^verbatim>\<open>CancellationToken\<close>,
  which a streamed request checks before each update.
\<close>

definition isCancellationRequested :: "searchSection \<Rightarrow> nat \<Rightarrow> bool" where
  "isCancellationRequested st t = (t < length (tokens st) \<and> tokens st ! t)"

text \<open>
  Modelled from the spec: the function \<^verbatim>\<open>cancellable\<close>, which wraps a callback so that
  it does not fire once the token is marked cancelled. The result is \<open>None\<close> when the
  wrapper returned without calling the callback.
\<close>

definition cancellable ::
  "nat \<Rightarrow> (searchSection \<Rightarrow> searchSection) \<Rightarrow> searchSection \<Rightarrow> searchSection option" where
  "cancellable cancellationToken fn st =
     (if isCancellationRequested st cancellationToken then None else Some (fn st))"

subsection \<open>Starting a query\<close>

text \<open>\<^verbatim>\<open>overrideMessage || query\<close>: the override unless it is missing or empty.\<close>

definition messageOf :: "scope \<Rightarrow> SearchRequestOverrides \<Rightarrow> string" where
  "messageOf sc ov =
     (case ov_overrideMessage ov of
        Some m \<Rightarrow> (if m \<noteq> [] then m else query sc)
      | None \<Rightarrow> query sc)"

text \<open>
  \<^verbatim>\<open>onSearch\<close>. The call of \<^verbatim>\<open>searchRequestStreamed\<close> is the entry appended to
  \<open>requests\<close>; the filters and the persona it is also given play no part in what the
  callbacks do and are left out of the entry, as is the state \<^verbatim>\<open>validQuestionResponse\<close>,
  which is only ever set to its default.
\<close>

definition onSearch :: "scope \<Rightarrow> SearchRequestOverrides \<Rightarrow> searchSection \<Rightarrow> searchSection" where
  "onSearch sc ov st =
     (let message = messageOf sc ov
      in if message = [] then st
         else
           (let st1 = st\<lparr>agenticResults := ov_agentic ov\<rparr>;
                st2 = resetInput False st1;
                st3 = st2\<lparr>contentEnriched := False\<rparr>;
                st4 = (case lastSearchCancellationToken st3 of
                         Some t \<Rightarrow> cancel t st3
                       | None \<Rightarrow> st3);
                (tok, st5) = newCancellationToken st4;
                st6 = st5\<lparr>lastSearchCancellationToken := Some tok\<rparr>;
                st7 = st6\<lparr>isFetching := True, searchResponse := initialSearchResponse\<rparr>
            in st7\<lparr>requests := requests st7 @
                 [\<lparr>req_query = message, req_agentic = ov_agentic ov, req_token = tok,
                   req_selectedSearchType =
                     (case ov_searchType ov of Some t \<Rightarrow> t | None \<Rightarrow> selectedSearchType sc),
                   req_offset =
                     (case ov_offset ov of Some off \<Rightarrow> off | None \<Rightarrow> defaultOffset sc)\<rparr>]\<rparr>))"

subsection \<open>Stream events\<close>

text \<open>
  One constructor for each callback of the arguments of \<^verbatim>\<open>searchRequestStreamed\<close>.
  \<^verbatim>\<open>updateDocStatus\<close> is bound to \<^verbatim>\<open>updateMessageAndThreadId\<close>, as
  \<^verbatim>\<open>updateMessageAndThreadId\<close> itself is.
\<close>

datatype event =
    AnswerPiece string
  | QuotesEv "Quote list"
  | DocsEv "SearchDanswerDocument list"
  | SuggestedSearchTypeEv SearchType
  | SuggestedFlowTypeEv FlowType
  | SelectedDocIndicesEv "int list"
  | ErrorEv string
  | MessageAndThreadIdEv int int
  | DocStatusEv int int
  | DocumentRelevanceEv Relevance
  | CommentsEv string
  | FinishedEv

fun handler :: "scope \<Rightarrow> int \<Rightarrow> event \<Rightarrow> searchSection \<Rightarrow> searchSection" where
  "handler sc now (AnswerPiece a) = updateCurrentAnswer sc now a"
| "handler sc now (QuotesEv qs) = updateQuotes qs"
| "handler sc now (DocsEv ds) = updateDocs sc now ds"
| "handler sc now (SuggestedSearchTypeEv t) = updateSuggestedSearchType t"
| "handler sc now (SuggestedFlowTypeEv t) = updateSuggestedFlowType t"
| "handler sc now (SelectedDocIndicesEv is) = updateSelectedDocIndices is"
| "handler sc now (ErrorEv e) = updateError e"
| "handler sc now (MessageAndThreadIdEv m c) = updateMessageAndThreadId m c"
| "handler sc now (DocStatusEv m c) = updateMessageAndThreadId m c"
| "handler sc now (DocumentRelevanceEv r) = updateDocumentRelevance sc r"
| "handler sc now (CommentsEv c) = updateComments c"
| "handler sc now FinishedEv = finishedSearching sc"

text \<open>
  The stream consumer calls the wrapped callback of an event; \<open>tok\<close> is the token the
  callbacks of its request were bound to, \<open>sc\<close> what their closures see.
\<close>

definition dispatch :: "nat \<Rightarrow> scope \<Rightarrow> int \<Rightarrow> event \<Rightarrow> searchSection \<Rightarrow> searchSection" where
  "dispatch tok sc now ev st =
     (case cancellable tok (handler sc now ev) st of None \<Rightarrow> st | Some st' \<Rightarrow> st')"

text \<open>What can happen to the component: a query is submitted, a stream event arrives, time passes.\<close>

datatype action =
    Search scope SearchRequestOverrides
  | Stream nat scope int event
  | Timers int

fun step :: "searchSection \<Rightarrow> action \<Rightarrow> searchSection" where
  "step st (Search sc ov) = onSearch sc ov st"
| "step st (Stream tok sc now ev) = dispatch tok sc now ev st"
| "step st (Timers now) = runTimers now st"

definition run :: "action list \<Rightarrow> searchSection \<Rightarrow> searchSection" where
  "run acts st = foldl step st acts"

text \<open>The component when it is mounted.\<close>

definition mounted :: searchSection where
  "mounted =
     \<lparr>searchResponse = initialSearchResponse, searchState = Input, analyzeStartTime = 0,
      isFetching = False, comments = None, contentEnriched = False, sweep = False,
      firstSearch = True, searchAnswerExpanded = False, agenticResults = None,
      tokens = [], lastSearchCancellationToken = None, timers = [], requests = []\<rparr>"

subsection \<open>Quotes on display\<close>

text \<open>
  The loop that fills \<^verbatim>\<open>dedupedQuotes\<close>: the accumulator is the pair of the array and
  the set \<^verbatim>\<open>seen\<close>. Nothing is pushed when \<^verbatim>\<open>quotes\<close> is \<^verbatim>\<open>null\<close>.
\<close>

definition dedupStep :: "Quote list \<times> string set \<Rightarrow> Quote \<Rightarrow> Quote list \<times> string set" where
  "dedupStep acc q =
     (case acc of (deduped, seen) \<Rightarrow>
        if document_id q \<notin> seen then (deduped @ [q], insert (document_id q) seen)
        else (deduped, seen))"

definition dedupedQuotes :: "Quote list option \<Rightarrow> Quote list" where
  "dedupedQuotes qs0 =
     (case qs0 of None \<Rightarrow> [] | Some qs \<Rightarrow> fst (foldl dedupStep ([], {}) qs))"

section \<open>The assistant editor\<close>

text \<open>
  The value of the form field \<^verbatim>\<open>num_chunks\<close>: \<^verbatim>\<open>null\<close> at first or after the search
  tool is toggled, the number of the persona being edited, or the string the text
  input holds (its \<^verbatim>\<open>onChange\<close> stores \<^verbatim>\<open>e.target.value\<close> when that is empty or all
  digits).
\<close>

datatype numChunksValue = Null | Num int | Str string

text \<open>JavaScript's truthiness, which \<^verbatim>\<open>||\<close> and \<^verbatim>\<open>&&\<close> test.\<close>

fun truthy :: "numChunksValue \<Rightarrow> bool" where
  "truthy Null = False"
| "truthy (Num n) = (n \<noteq> 0)"
| "truthy (Str s) = (s \<noteq> [])"

definition truthyString :: "string option \<Rightarrow> bool" where
  "truthyString v = (case v of None \<Rightarrow> False | Some s \<Rightarrow> s \<noteq> [])"

text \<open>
  The form values the submit handler and the schema's test read or replace. The other
  values (icon, starter messages, uploaded image) are passed on as they are.
\<close>

record formValues =
  name :: string
  description :: string
  system_prompt :: string
  task_prompt :: string
  is_public :: bool
  document_set_ids :: "nat list"
  num_chunks :: numChunksValue
  include_citations :: bool
  llm_relevance_filter :: bool
  llm_model_provider_override :: "string option"
  llm_model_version_override :: "string option"
  enabled_tools_map :: "(nat \<times> bool) list"
  groups :: "nat list"

text \<open>
  What the handler reads besides the values: the state \<^verbatim>\<open>finalPromptError\<close>, the ids
  of the search and image generation tools when the deployment has them, the answer of
  \<^verbatim>\<open>checkLLMSupportsImageInput\<close> for the chosen model, the id of the persona being
  edited (none when one is created), and the user id that is sent (none for no user or
  the no-auth user).
\<close>

record editor =
  finalPromptError :: string
  searchTool :: "nat option"
  imageGenerationTool :: "nat option"
  llmSupportsImageInput :: bool
  existingPersona :: "nat option"
  sentUser :: "string option"

record personaRequest =
  p_id :: "nat option"
  p_values :: formValues
  p_num_chunks :: numChunksValue
  p_users :: "string list option"
  p_groups :: "nat list"
  p_tool_ids :: "nat list"

datatype submission =
    Popup string
  | UpdatePersona personaRequest
  | CreatePersona personaRequest

definition numChunks :: "bool \<Rightarrow> formValues \<Rightarrow> numChunksValue" where
  "numChunks searchToolEnabled values =
     (if searchToolEnabled
      then (if truthy (num_chunks values) then num_chunks values else Num 10)
      else Num 0)"

definition enabledToolIds :: "formValues \<Rightarrow> nat list" where
  "enabledToolIds values =
     filter (\<lambda>toolId. map_of (enabled_tools_map values) toolId = Some True)
       (map fst (enabled_tools_map values))"

definition searchToolEnabled :: "editor \<Rightarrow> formValues \<Rightarrow> bool" where
  "searchToolEnabled ed values =
     (case searchTool ed of Some t \<Rightarrow> t \<in> set (enabledToolIds values) | None \<Rightarrow> False)"

definition onSubmit :: "editor \<Rightarrow> formValues \<Rightarrow> submission" where
  "onSubmit ed values =
     (if finalPromptError ed \<noteq> [] then
        Popup ''Cannot submit while there are errors in the form''
      else if truthyString (llm_model_provider_override values)
              \<and> \<not> truthyString (llm_model_version_override values) then
        Popup ''Must select a model if a non-default LLM provider is chosen.''
      else
        (let enabledTools0 = enabledToolIds values;
             imageGenerationToolEnabled =
               (case imageGenerationTool ed of
                  Some t \<Rightarrow> t \<in> set enabledTools0 | None \<Rightarrow> False);
             enabledTools =
               (if imageGenerationToolEnabled \<and> \<not> llmSupportsImageInput ed
                then filter (\<lambda>toolId. Some toolId \<noteq> imageGenerationTool ed) enabledTools0
                else enabledTools0);
             request =
               \<lparr>p_id = existingPersona ed, p_values = values,
                p_num_chunks = numChunks (searchToolEnabled ed values) values,
                p_users = (case sentUser ed of Some u \<Rightarrow> Some [u] | None \<Rightarrow> None),
                p_groups = (if is_public values then [] else groups values),
                p_tool_ids = enabledTools\<rparr>
         in if existingPersona ed \<noteq> None then UpdatePersona request
            else CreatePersona request))"

subsection \<open>Validation\<close>

text \<open>
  \<^verbatim>\<open>String.prototype.trim\<close> removes white space and line terminators at both ends;
  among the code units below 256 these are the six ASCII ones and the no-break space.
\<close>

definition isWhiteSpace :: "char \<Rightarrow> bool" where
  "isWhiteSpace c = (of_char c \<in> {9, 10, 11, 12, 13, 32, 160 :: nat})"

definition trim :: "string \<Rightarrow> string" where
  "trim s = rev (dropWhile isWhiteSpace (rev (dropWhile isWhiteSpace s)))"

record validationError =
  path :: string
  message :: string

text \<open>The test \<^verbatim>\<open>"system-prompt-or-task-prompt"\<close> of the schema; \<open>None\<close> is its \<^verbatim>\<open>true\<close>.\<close>

definition systemPromptOrTaskPrompt :: "formValues \<Rightarrow> validationError option" where
  "systemPromptOrTaskPrompt values =
     (let systemPromptSpecified =
            (system_prompt values \<noteq> [] \<and> length (trim (system_prompt values)) > 0);
          taskPromptSpecified =
            (task_prompt values \<noteq> [] \<and> length (trim (task_prompt values)) > 0)
      in if systemPromptSpecified \<or> taskPromptSpecified then None
         else Some \<lparr>path = ''system_prompt'',
                    message = ''Must provide either System Prompt or Additional Instructions''\<rparr>)"

text \<open>
  The form library validates the values against the schema when the form is submitted
  and calls the submit handler only if there is no error. The errors of the schema's
  rules for the single fields come from the validation library; they are the argument
  \<open>fieldErrors\<close>. The result is the errors shown, or what the handler did.
\<close>

definition submitForm ::
  "validationError list \<Rightarrow> editor \<Rightarrow> formValues \<Rightarrow> validationError list + submission" where
  "submitForm fieldErrors ed values =
     (let errors = fieldErrors @
            (case systemPromptOrTaskPrompt values of None \<Rightarrow> [] | Some e \<Rightarrow> [e])
      in if errors = [] then Inr (onSubmit ed values) else Inl errors)"

section \<open>Notions used in the statements\<close>

text \<open>The quotes of a list whose document id is neither in \<open>seen\<close> nor met earlier in the list.\<close>

fun firstSeen :: "string set \<Rightarrow> Quote list \<Rightarrow> Quote list" where
  "firstSeen seen [] = []"
| "firstSeen seen (q # qs) =
     (if document_id q \<in> seen then firstSeen seen qs
      else q # firstSeen (insert (document_id q) seen) qs)"

text \<open>The position of a phase in the order of the type \<^verbatim>\<open>searchState\<close>.\<close>

fun rank :: "searchState \<Rightarrow> nat" where
  "rank Input = 0"
| "rank Searching = 1"
| "rank Reading = 2"
| "rank Analyzing = 3"
| "rank Summarizing = 4"
| "rank Generating = 5"
| "rank Citing = 6"

text \<open>The phases the component ever sets: all but \<^verbatim>\<open>"summarizing"\<close> and \<^verbatim>\<open>"citing"\<close>.\<close>

definition narrated :: "searchState \<Rightarrow> bool" where
  "narrated p = (p \<noteq> Summarizing \<and> p \<noteq> Citing)"

text \<open>The value an event carries for each field of the response, if it sets that field.\<close>

fun answerOf :: "event \<Rightarrow> string option" where
  "answerOf (AnswerPiece a) = Some a"
| "answerOf _ = None"

fun quotesOf :: "event \<Rightarrow> Quote list option" where
  "quotesOf (QuotesEv qs) = Some qs"
| "quotesOf _ = None"

fun documentsOf :: "event \<Rightarrow> SearchDanswerDocument list option" where
  "documentsOf (DocsEv ds) = Some ds"
| "documentsOf _ = None"

fun suggestedSearchTypeOf :: "event \<Rightarrow> SearchType option" where
  "suggestedSearchTypeOf (SuggestedSearchTypeEv t) = Some t"
| "suggestedSearchTypeOf _ = None"

fun suggestedFlowTypeOf :: "event \<Rightarrow> FlowType option" where
  "suggestedFlowTypeOf (SuggestedFlowTypeEv t) = Some t"
| "suggestedFlowTypeOf _ = None"

fun selectedDocIndicesOf :: "event \<Rightarrow> int list option" where
  "selectedDocIndicesOf (SelectedDocIndicesEv is) = Some is"
| "selectedDocIndicesOf _ = None"

fun errorOf :: "event \<Rightarrow> string option" where
  "errorOf (ErrorEv e) = Some e"
| "errorOf _ = None"

fun messageIdOf :: "event \<Rightarrow> int option" where
  "messageIdOf (MessageAndThreadIdEv m c) = Some m"
| "messageIdOf (DocStatusEv m c) = Some m"
| "messageIdOf _ = None"

fun relevanceOf :: "event \<Rightarrow> Relevance option" where
  "relevanceOf (DocumentRelevanceEv r) = Some r"
| "relevanceOf _ = None"

datatype field =
    FAnswer | FQuotes | FDocuments | FSuggestedSearchType | FSuggestedFlowType
  | FSelectedDocIndices | FError | FMessageId | FRelevance

fun fieldOf :: "event \<Rightarrow> field option" where
  "fieldOf (AnswerPiece a) = Some FAnswer"
| "fieldOf (QuotesEv qs) = Some FQuotes"
| "fieldOf (DocsEv ds) = Some FDocuments"
| "fieldOf (SuggestedSearchTypeEv t) = Some FSuggestedSearchType"
| "fieldOf (SuggestedFlowTypeEv t) = Some FSuggestedFlowType"
| "fieldOf (SelectedDocIndicesEv is) = Some FSelectedDocIndices"
| "fieldOf (ErrorEv e) = Some FError"
| "fieldOf (MessageAndThreadIdEv m c) = Some FMessageId"
| "fieldOf (DocStatusEv m c) = Some FMessageId"
| "fieldOf (DocumentRelevanceEv r) = Some FRelevance"
| "fieldOf (CommentsEv c) = None"
| "fieldOf FinishedEv = None"

text \<open>The last value a list of events carries for a field; \<open>None\<close> when none does.\<close>

fun lastSet :: "(event \<Rightarrow> 'a option) \<Rightarrow> event list \<Rightarrow> 'a option" where
  "lastSet sel [] = None"
| "lastSet sel (ev # evs) =
     (case lastSet sel evs of Some v \<Rightarrow> Some v | None \<Rightarrow> sel ev)"

text \<open>
  The callbacks of a list of events called one after the other, each at its own time,
  by a stream whose token is not cancelled.
\<close>

definition applyEvents :: "scope \<Rightarrow> (int \<times> event) list \<Rightarrow> searchSection \<Rightarrow> searchSection" where
  "applyEvents sc tevs st = foldl (\<lambda>s (now, ev). handler sc now ev s) st tevs"

text \<open>The current token, if there is one, is a token that was created.\<close>

definition tokenAllocated :: "searchSection \<Rightarrow> bool" where
  "tokenAllocated st =
     (case lastSearchCancellationToken st of
        None \<Rightarrow> True | Some t \<Rightarrow> t < length (tokens st))"

text \<open>A string that is empty or consists of white space only.\<close>

definition blank :: "string \<Rightarrow> bool" where
  "blank s = list_all isWhiteSpace s"

text \<open>
  The function a callback hands to \<^verbatim>\<open>setSearchResponse\<close>: the previous response with
  the event's field replaced. The state always holds a response object, so the
  \<^verbatim>\<open>prevState || initialSearchResponse\<close> of the source is \<^verbatim>\<open>prevState\<close>.
\<close>

definition mergeField :: "event \<Rightarrow> SearchResponse \<Rightarrow> SearchResponse" where
  "mergeField ev prevState =
     (case ev of
        AnswerPiece a \<Rightarrow> prevState\<lparr>answer := Some a\<rparr>
      | QuotesEv qs \<Rightarrow> prevState\<lparr>quotes := Some qs\<rparr>
      | DocsEv ds \<Rightarrow> prevState\<lparr>documents := Some ds\<rparr>
      | SuggestedSearchTypeEv t \<Rightarrow> prevState\<lparr>suggestedSearchType := Some t\<rparr>
      | SuggestedFlowTypeEv t \<Rightarrow> prevState\<lparr>suggestedFlowType := Some t\<rparr>
      | SelectedDocIndicesEv is \<Rightarrow> prevState\<lparr>selectedDocIndices := Some is\<rparr>
      | ErrorEv e \<Rightarrow> prevState\<lparr>error := Some e\<rparr>
      | MessageAndThreadIdEv m c \<Rightarrow> prevState\<lparr>messageId := Some m\<rparr>
      | DocStatusEv m c \<Rightarrow> prevState\<lparr>messageId := Some m\<rparr>
      | DocumentRelevanceEv r \<Rightarrow> prevState\<lparr>additional_relevance := Some r\<rparr>
      | CommentsEv c \<Rightarrow> prevState
      | FinishedEv \<Rightarrow> prevState)"

text \<open>The request a submission sends, if it sends one.\<close>

fun requestOf :: "submission \<Rightarrow> personaRequest option" where
  "requestOf (Popup m) = None"
| "requestOf (UpdatePersona r) = Some r"
| "requestOf (CreatePersona r) = Some r"

subsection \<open>Values for the examples\<close>

text \<open>
  A deployment with narration: what the callbacks of the first query see (no analysis
  has started yet), and the arguments the search bar calls \<^verbatim>\<open>onSearch\<close> with.
\<close>

definition narrating :: scope where
  "narrating =
     \<lparr>query = ''q'', agentic = True, disabledAgentic = False, seenAnalyzeStartTime = 0,
      selectedSearchType = ''semantic'', defaultOffset = 0\<rparr>"

text \<open>The same with nothing typed into the search bar.\<close>

definition emptyQuery :: scope where
  "emptyQuery = narrating\<lparr>query := []\<rparr>"

definition fromSearchBar :: SearchRequestOverrides where
  "fromSearchBar =
     \<lparr>ov_searchType = None, ov_agentic = Some True, ov_offset = Some 0,
      ov_overrideMessage = None\<rparr>"

definition aDocument :: SearchDanswerDocument where
  "aDocument = \<lparr>doc_document_id = ''d1'', doc_blurb = ''text''\<rparr>"

text \<open>
  A first query, submitted at time 0 in the render of the mounted component: its
  documents arrive at once, the timers for \<^verbatim>\<open>"reading"\<close> and \<^verbatim>\<open>"analyzing"\<close> fire at
  1500 and 4500, and an answer token arrives at 5000, which is 500 ms into the analysis.
\<close>

definition firstQuery :: "action list" where
  "firstQuery =
     [Search (renderedIn mounted narrating) fromSearchBar,
      Stream 0 (renderedIn mounted narrating) 0 (DocsEv [aDocument]),
      Timers 1500, Timers 4500]"

definition firstToken :: action where
  "firstToken = Stream 0 (renderedIn mounted narrating) 5000 (AnswerPiece ''The'')"

text \<open>
  The first query ends with its quotes at 7000. A second query is submitted at 100000
  in the render of the state reached then; its documents arrive at once, its timers
  fire at 101500 and 104500, and an answer token arrives at 105000, again 500 ms into
  the analysis.
\<close>

definition betweenQueries :: searchSection where
  "betweenQueries =
     run (firstQuery @
          [firstToken, Timers 6000,
           Stream 0 (renderedIn mounted narrating) 7000 (QuotesEv [])]) mounted"

definition secondQuery :: "action list" where
  "secondQuery =
     [Search (renderedIn betweenQueries narrating) fromSearchBar,
      Stream 1 (renderedIn betweenQueries narrating) 100000 (DocsEv [aDocument]),
      Timers 101500, Timers 104500]"

definition secondToken :: action where
  "secondToken = Stream 1 (renderedIn betweenQueries narrating) 105000 (AnswerPiece ''The'')"

text \<open>An editor whose deployment has the search tool, with id 1, and values that enable it.\<close>

definition anEditor :: editor where
  "anEditor =
     \<lparr>finalPromptError = [], searchTool = Some 1, imageGenerationTool = None,
      llmSupportsImageInput = False, existingPersona = None, sentUser = None\<rparr>"

definition someValues :: formValues where
  "someValues =
     \<lparr>name = ''Helper'', description = ''Answers questions'', system_prompt = ''You help.'',
      task_prompt = [], is_public = True, document_set_ids = [], num_chunks = Null,
      include_citations = True, llm_relevance_filter = False,
      llm_model_provider_override = None, llm_model_version_override = None,
      enabled_tools_map = [(1, True)], groups = []\<rparr>"

section \<open>Quotes on display\<close>

lemma foldl_dedupStep:
  "foldl dedupStep (acc, seen) qs = (acc @ firstSeen seen qs, seen \<union> document_id ` set qs)"
  by (induction qs arbitrary: acc seen) (auto simp: dedupStep_def)

lemma dedupedQuotes_firstSeen: "dedupedQuotes (Some qs) = firstSeen {} qs"
  by (simp add: dedupedQuotes_def foldl_dedupStep)

lemma firstSeen_subseq: "subseq (firstSeen seen qs) qs"
  by (induction qs arbitrary: seen) auto

lemma firstSeen_ids: "document_id ` set (firstSeen seen qs) = document_id ` set qs - seen"
  by (induction qs arbitrary: seen) auto

lemma firstSeen_distinct: "distinct (map document_id (firstSeen seen qs))"
  by (induction qs arbitrary: seen) (auto simp: firstSeen_ids)

lemma firstSeen_find:
  "q \<in> set (firstSeen seen qs) \<Longrightarrow> find (\<lambda>q'. document_id q' = document_id q) qs = Some q"
proof (induction qs arbitrary: seen)
  case Nil
  then show ?case by simp
next
  case (Cons x xs)
  show ?case
  proof (cases "document_id x \<in> seen")
    case True
    with Cons.prems have mem: "q \<in> set (firstSeen seen xs)" by simp
    then have "document_id q \<in> document_id ` set xs - seen"
      using firstSeen_ids [of seen xs] by blast
    with True have "document_id x \<noteq> document_id q" by auto
    with Cons.IH [OF mem] show ?thesis by simp
  next
    case False
    show ?thesis
    proof (cases "q = x")
      case True
      then show ?thesis by simp
    next
      case neq: False
      with False Cons.prems
      have mem: "q \<in> set (firstSeen (insert (document_id x) seen) xs)" by simp
      then have "document_id q \<in> document_id ` set xs - insert (document_id x) seen"
        using firstSeen_ids [of "insert (document_id x) seen" xs] by blast
      then have "document_id x \<noteq> document_id q" by auto
      with Cons.IH [OF mem] show ?thesis by simp
    qed
  qed
qed

text \<open>
  Claim C6. The quotes on display are a subsequence of the quotes of the response (the
  order is kept), no document id occurs twice among them, every document id of the
  response occurs among them, and each of them is the first quote of the response with
  its document id. The quotes with ids a, b, a give the first and the second one.
\<close>

theorem dedupedQuotes_first_occurrences:
  "subseq (dedupedQuotes (Some qs)) qs
   \<and> distinct (map document_id (dedupedQuotes (Some qs)))
   \<and> document_id ` set (dedupedQuotes (Some qs)) = document_id ` set qs
   \<and> (\<forall>q \<in> set (dedupedQuotes (Some qs)).
         find (\<lambda>q'. document_id q' = document_id q) qs = Some q)
   \<and> dedupedQuotes None = []
   \<and> dedupedQuotes (Some [\<lparr>document_id = ''a'', quote = x\<rparr>, \<lparr>document_id = ''b'', quote = y\<rparr>,
         \<lparr>document_id = ''a'', quote = z\<rparr>])
       = [\<lparr>document_id = ''a'', quote = x\<rparr>, \<lparr>document_id = ''b'', quote = y\<rparr>]"
  using firstSeen_subseq [of "{}" qs] firstSeen_distinct [of "{}" qs]
    firstSeen_ids [of "{}" qs] firstSeen_find [of _ "{}" qs]
  by (simp add: dedupedQuotes_firstSeen) (simp add: dedupedQuotes_def)

theorem dedupedQuotes_first_occurrences_witness:
  "dedupedQuotes (Some [\<lparr>document_id = ''a'', quote = ''one''\<rparr>,
       \<lparr>document_id = ''b'', quote = ''two''\<rparr>, \<lparr>document_id = ''a'', quote = ''three''\<rparr>])
     = [\<lparr>document_id = ''a'', quote = ''one''\<rparr>, \<lparr>document_id = ''b'', quote = ''two''\<rparr>]
   \<and> find (\<lambda>q'. document_id q' = ''a'')
        [\<lparr>document_id = ''a'', quote = ''one''\<rparr>,
         \<lparr>document_id = ''b'', quote = ''two''\<rparr>, \<lparr>document_id = ''a'', quote = ''three''\<rparr>]
       = Some \<lparr>document_id = ''a'', quote = ''one''\<rparr>
   \<and> find (\<lambda>q'. document_id q' = ''b'')
        [\<lparr>document_id = ''a'', quote = ''one''\<rparr>,
         \<lparr>document_id = ''b'', quote = ''two''\<rparr>, \<lparr>document_id = ''a'', quote = ''three''\<rparr>]
       = Some \<lparr>document_id = ''b'', quote = ''two''\<rparr>"
  using dedupedQuotes_first_occurrences [of "[\<lparr>document_id = ''a'', quote = ''one''\<rparr>,
       \<lparr>document_id = ''b'', quote = ''two''\<rparr>, \<lparr>document_id = ''a'', quote = ''three''\<rparr>]" "''one''" "''two''" "''three''"]
  by simp

section \<open>Stream errors\<close>

text \<open>
  Claim C7. The callback of an error event stores the error in the response, sets the
  phase to \<^verbatim>\<open>"input"\<close> at once, and changes no other field of the response.
\<close>

theorem updateError_sets_error_and_idles:
  "error (searchResponse (handler sc now (ErrorEv e) st)) = Some e
   \<and> searchState (handler sc now (ErrorEv e) st) = Input
   \<and> searchResponse (handler sc now (ErrorEv e) st) = (searchResponse st)\<lparr>error := Some e\<rparr>
   \<and> answer (searchResponse (handler sc now (ErrorEv e) st)) = answer (searchResponse st)
   \<and> quotes (searchResponse (handler sc now (ErrorEv e) st)) = quotes (searchResponse st)
   \<and> documents (searchResponse (handler sc now (ErrorEv e) st)) = documents (searchResponse st)"
  by (simp add: updateError_def resetInput_def)

section \<open>Merging stream events into the response\<close>

lemmas callback_defs =
  updateCurrentAnswer_def updateQuotes_def updateDocs_def updateSuggestedSearchType_def
  updateSuggestedFlowType_def updateSelectedDocIndices_def updateError_def resetInput_def
  updateMessageAndThreadId_def updateDocumentRelevance_def updateComments_def
  finishedSearching_def setTimeout_def

lemma searchResponse_handler:
  "searchResponse (handler sc now ev st) = mergeField ev (searchResponse st)"
  by (cases ev) (simp_all add: callback_defs mergeField_def Let_def)

lemma mergeField_commute:
  "fieldOf e1 \<noteq> fieldOf e2 \<Longrightarrow>
   mergeField e1 (mergeField e2 r) = mergeField e2 (mergeField e1 r)"
  by (cases e1; cases e2; simp add: mergeField_def)

lemma mergeField_idem: "mergeField ev (mergeField ev r) = mergeField ev r"
  by (cases ev) (simp_all add: mergeField_def)

lemma mergeField_fields:
  "answer (mergeField ev r) = (case answerOf ev of Some v \<Rightarrow> Some v | None \<Rightarrow> answer r)"
  "quotes (mergeField ev r) = (case quotesOf ev of Some v \<Rightarrow> Some v | None \<Rightarrow> quotes r)"
  "documents (mergeField ev r) = (case documentsOf ev of Some v \<Rightarrow> Some v | None \<Rightarrow> documents r)"
  "suggestedSearchType (mergeField ev r) =
     (case suggestedSearchTypeOf ev of Some v \<Rightarrow> Some v | None \<Rightarrow> suggestedSearchType r)"
  "suggestedFlowType (mergeField ev r) =
     (case suggestedFlowTypeOf ev of Some v \<Rightarrow> Some v | None \<Rightarrow> suggestedFlowType r)"
  "selectedDocIndices (mergeField ev r) =
     (case selectedDocIndicesOf ev of Some v \<Rightarrow> Some v | None \<Rightarrow> selectedDocIndices r)"
  "error (mergeField ev r) = (case errorOf ev of Some v \<Rightarrow> Some v | None \<Rightarrow> error r)"
  "messageId (mergeField ev r) = (case messageIdOf ev of Some v \<Rightarrow> Some v | None \<Rightarrow> messageId r)"
  "additional_relevance (mergeField ev r) =
     (case relevanceOf ev of Some v \<Rightarrow> Some v | None \<Rightarrow> additional_relevance r)"
  by (cases ev; simp add: mergeField_def)+

lemma applyEvents_Cons:
  "applyEvents sc ((now, ev) # tevs) st = applyEvents sc tevs (handler sc now ev st)"
  by (simp add: applyEvents_def)

lemma applyEvents_last:
  assumes "\<And>ev r. g (mergeField ev r) = (case sel ev of Some v \<Rightarrow> Some v | None \<Rightarrow> g r)"
  shows "g (searchResponse (applyEvents sc tevs st))
         = (case lastSet sel (map snd tevs) of Some v \<Rightarrow> Some v | None \<Rightarrow> g (searchResponse st))"
proof (induction tevs arbitrary: st)
  case Nil
  show ?case by (simp add: applyEvents_def)
next
  case (Cons x xs)
  obtain now ev where x: "x = (now, ev)" by (cases x)
  show ?case
    unfolding x applyEvents_Cons Cons.IH
    by (simp add: searchResponse_handler assms split: option.splits)
qed

lemma applyEvents_initial:
  assumes i: "searchResponse st = initialSearchResponse"
  shows "answer (searchResponse (applyEvents sc tevs st)) = lastSet answerOf (map snd tevs)
     \<and> quotes (searchResponse (applyEvents sc tevs st)) = lastSet quotesOf (map snd tevs)
     \<and> documents (searchResponse (applyEvents sc tevs st)) = lastSet documentsOf (map snd tevs)
     \<and> suggestedSearchType (searchResponse (applyEvents sc tevs st)) = lastSet suggestedSearchTypeOf (map snd tevs)
     \<and> suggestedFlowType (searchResponse (applyEvents sc tevs st)) = lastSet suggestedFlowTypeOf (map snd tevs)
     \<and> selectedDocIndices (searchResponse (applyEvents sc tevs st)) = lastSet selectedDocIndicesOf (map snd tevs)
     \<and> error (searchResponse (applyEvents sc tevs st)) = lastSet errorOf (map snd tevs)
     \<and> messageId (searchResponse (applyEvents sc tevs st)) = lastSet messageIdOf (map snd tevs)
     \<and> additional_relevance (searchResponse (applyEvents sc tevs st)) = lastSet relevanceOf (map snd tevs)"
  by (simp add: applyEvents_last [where sc = sc and tevs = tevs and st = st] mergeField_fields
      i initialSearchResponse_def split: option.splits)

lemma handler_fields:
  "answer (searchResponse (handler sc now ev s))
       = (case answerOf ev of Some v \<Rightarrow> Some v | None \<Rightarrow> answer (searchResponse s))
   \<and> quotes (searchResponse (handler sc now ev s))
       = (case quotesOf ev of Some v \<Rightarrow> Some v | None \<Rightarrow> quotes (searchResponse s))
   \<and> documents (searchResponse (handler sc now ev s))
       = (case documentsOf ev of Some v \<Rightarrow> Some v | None \<Rightarrow> documents (searchResponse s))
   \<and> suggestedSearchType (searchResponse (handler sc now ev s))
       = (case suggestedSearchTypeOf ev of Some v \<Rightarrow> Some v | None \<Rightarrow> suggestedSearchType (searchResponse s))
   \<and> suggestedFlowType (searchResponse (handler sc now ev s))
       = (case suggestedFlowTypeOf ev of Some v \<Rightarrow> Some v | None \<Rightarrow> suggestedFlowType (searchResponse s))
   \<and> selectedDocIndices (searchResponse (handler sc now ev s))
       = (case selectedDocIndicesOf ev of Some v \<Rightarrow> Some v | None \<Rightarrow> selectedDocIndices (searchResponse s))
   \<and> error (searchResponse (handler sc now ev s))
       = (case errorOf ev of Some v \<Rightarrow> Some v | None \<Rightarrow> error (searchResponse s))
   \<and> messageId (searchResponse (handler sc now ev s))
       = (case messageIdOf ev of Some v \<Rightarrow> Some v | None \<Rightarrow> messageId (searchResponse s))
   \<and> additional_relevance (searchResponse (handler sc now ev s))
       = (case relevanceOf ev of Some v \<Rightarrow> Some v | None \<Rightarrow> additional_relevance (searchResponse s))"
  by (simp add: searchResponse_handler mergeField_fields)

text \<open>
  Claim C2. Starting from the empty response, after the callbacks of any list of events
  each field of the response holds the last value the list carries for it (and is still
  empty when the list carries none). A single callback gives its own field the value of
  its event and leaves every other field as it was. Hence callbacks of events for
  different fields can be swapped without changing the response, and calling the
  callback of an event twice gives the response of calling it once.
\<close>

theorem searchResponse_last_write_per_field:
  assumes "searchResponse st = initialSearchResponse"
  shows "(answer (searchResponse (applyEvents sc tevs st)) = lastSet answerOf (map snd tevs)
   \<and> quotes (searchResponse (applyEvents sc tevs st)) = lastSet quotesOf (map snd tevs)
   \<and> documents (searchResponse (applyEvents sc tevs st)) = lastSet documentsOf (map snd tevs)
   \<and> suggestedSearchType (searchResponse (applyEvents sc tevs st)) = lastSet suggestedSearchTypeOf (map snd tevs)
   \<and> suggestedFlowType (searchResponse (applyEvents sc tevs st)) = lastSet suggestedFlowTypeOf (map snd tevs)
   \<and> selectedDocIndices (searchResponse (applyEvents sc tevs st)) = lastSet selectedDocIndicesOf (map snd tevs)
   \<and> error (searchResponse (applyEvents sc tevs st)) = lastSet errorOf (map snd tevs)
   \<and> messageId (searchResponse (applyEvents sc tevs st)) = lastSet messageIdOf (map snd tevs)
   \<and> additional_relevance (searchResponse (applyEvents sc tevs st)) = lastSet relevanceOf (map snd tevs))
   \<and> (answer (searchResponse (handler sc now ev s))
       = (case answerOf ev of Some v \<Rightarrow> Some v | None \<Rightarrow> answer (searchResponse s))
   \<and> quotes (searchResponse (handler sc now ev s))
       = (case quotesOf ev of Some v \<Rightarrow> Some v | None \<Rightarrow> quotes (searchResponse s))
   \<and> documents (searchResponse (handler sc now ev s))
       = (case documentsOf ev of Some v \<Rightarrow> Some v | None \<Rightarrow> documents (searchResponse s))
   \<and> suggestedSearchType (searchResponse (handler sc now ev s))
       = (case suggestedSearchTypeOf ev of Some v \<Rightarrow> Some v | None \<Rightarrow> suggestedSearchType (searchResponse s))
   \<and> suggestedFlowType (searchResponse (handler sc now ev s))
       = (case suggestedFlowTypeOf ev of Some v \<Rightarrow> Some v | None \<Rightarrow> suggestedFlowType (searchResponse s))
   \<and> selectedDocIndices (searchResponse (handler sc now ev s))
       = (case selectedDocIndicesOf ev of Some v \<Rightarrow> Some v | None \<Rightarrow> selectedDocIndices (searchResponse s))
   \<and> error (searchResponse (handler sc now ev s))
       = (case errorOf ev of Some v \<Rightarrow> Some v | None \<Rightarrow> error (searchResponse s))
   \<and> messageId (searchResponse (handler sc now ev s))
       = (case messageIdOf ev of Some v \<Rightarrow> Some v | None \<Rightarrow> messageId (searchResponse s))
   \<and> additional_relevance (searchResponse (handler sc now ev s))
       = (case relevanceOf ev of Some v \<Rightarrow> Some v | None \<Rightarrow> additional_relevance (searchResponse s)))
   \<and> (fieldOf e1 \<noteq> fieldOf e2 \<longrightarrow>
        searchResponse (handler sc t1 e1 (handler sc t2 e2 s))
        = searchResponse (handler sc t2 e2 (handler sc t1 e1 s)))
   \<and> searchResponse (handler sc t2 ev (handler sc t1 ev s)) = searchResponse (handler sc t1 ev s)"
proof (intro conjI)
  show "fieldOf e1 \<noteq> fieldOf e2 \<longrightarrow>
        searchResponse (handler sc t1 e1 (handler sc t2 e2 s))
        = searchResponse (handler sc t2 e2 (handler sc t1 e1 s))"
    by (simp add: searchResponse_handler mergeField_commute)
  show "searchResponse (handler sc t2 ev (handler sc t1 ev s)) = searchResponse (handler sc t1 ev s)"
    by (simp add: searchResponse_handler mergeField_idem)
qed (use applyEvents_initial [OF assms, of sc tevs] handler_fields [of sc now ev s] in blast)+

theorem searchResponse_last_write_per_field_witness:
  "searchResponse mounted = initialSearchResponse
   \<and> answer (searchResponse (applyEvents
        narrating
        [(0, DocsEv []), (5, AnswerPiece ''a''), (6, ErrorEv ''x''), (7, AnswerPiece ''ab'')]
        mounted)) = Some ''ab''
   \<and> error (searchResponse (applyEvents
        narrating
        [(0, DocsEv []), (5, AnswerPiece ''a''), (6, ErrorEv ''x''), (7, AnswerPiece ''ab'')]
        mounted)) = Some ''x''
   \<and> quotes (searchResponse (applyEvents
        narrating
        [(0, DocsEv []), (5, AnswerPiece ''a''), (6, ErrorEv ''x''), (7, AnswerPiece ''ab'')]
        mounted)) = None
   \<and> fieldOf (AnswerPiece ''a'') \<noteq> fieldOf (ErrorEv ''x'')
   \<and> searchResponse (handler
        narrating 5 (AnswerPiece ''a'')
        (handler narrating 6 (ErrorEv ''x'') mounted))
      = searchResponse (handler
        narrating 6 (ErrorEv ''x'')
        (handler narrating 5 (AnswerPiece ''a'') mounted))"
proof -
  have i: "searchResponse mounted = initialSearchResponse" by (simp add: mounted_def)
  show ?thesis
    using i searchResponse_last_write_per_field [OF i,
      where sc = narrating
      and tevs = "[(0, DocsEv []), (5, AnswerPiece ''a''), (6, ErrorEv ''x''), (7, AnswerPiece ''ab'')]"
      and ?e1.0 = "AnswerPiece ''a''" and ?e2.0 = "ErrorEv ''x''" and ?t1.0 = 5 and ?t2.0 = 6
      and s = mounted]
    by simp
qed

section \<open>Cancellation of a superseded stream\<close>

lemma tokens_handler [simp]: "tokens (handler sc now ev st) = tokens st"
  by (cases ev) (simp_all add: callback_defs Let_def)

lemma lastToken_handler [simp]:
  "lastSearchCancellationToken (handler sc now ev st) = lastSearchCancellationToken st"
  by (cases ev) (simp_all add: callback_defs Let_def)

lemma tokens_fire [simp]: "tokens (fire t cb st) = tokens st"
  by (cases cb) (simp_all add: fire_def Let_def)

lemma lastToken_fire [simp]:
  "lastSearchCancellationToken (fire t cb st) = lastSearchCancellationToken st"
  by (cases cb) (simp_all add: fire_def Let_def)

lemma searchState_fire:
  "searchState (fire t cb st) =
     (if searchState st = Input then Input
      else case cb of ToReading \<Rightarrow> Reading | ToAnalyzing \<Rightarrow> Analyzing | ToGenerating \<Rightarrow> Generating)"
  by (cases cb) (simp_all add: fire_def newSearchState_def Let_def)

lemma foldl_fire_tokens:
  "tokens (foldl (\<lambda>s (due, cb). fire due cb s) st ts) = tokens st"
  by (induction ts arbitrary: st) (auto simp: case_prod_beta)

lemma foldl_fire_lastToken:
  "lastSearchCancellationToken (foldl (\<lambda>s (due, cb). fire due cb s) st ts)
   = lastSearchCancellationToken st"
  by (induction ts arbitrary: st) (auto simp: case_prod_beta)

lemma foldl_fire_Input:
  "searchState st = Input \<Longrightarrow> searchState (foldl (\<lambda>s (due, cb). fire due cb s) st ts) = Input"
  by (induction ts arbitrary: st) (auto simp: case_prod_beta searchState_fire)

lemma tokens_runTimers [simp]: "tokens (runTimers t st) = tokens st"
  by (simp add: runTimers_def foldl_fire_tokens)

lemma lastToken_runTimers [simp]:
  "lastSearchCancellationToken (runTimers t st) = lastSearchCancellationToken st"
  by (simp add: runTimers_def foldl_fire_lastToken)

lemma runTimers_Input: "searchState st = Input \<Longrightarrow> searchState (runTimers t st) = Input"
  by (simp add: runTimers_def foldl_fire_Input)

lemma tokens_dispatch [simp]: "tokens (dispatch tok sc now ev st) = tokens st"
  by (simp add: dispatch_def cancellable_def)

lemma lastToken_dispatch [simp]:
  "lastSearchCancellationToken (dispatch tok sc now ev st) = lastSearchCancellationToken st"
  by (simp add: dispatch_def cancellable_def)

lemma tokens_onSearch:
  "tokens (onSearch sc ov st) =
     (if messageOf sc ov = [] then tokens st
      else (case lastSearchCancellationToken st of
              Some t \<Rightarrow> (tokens st)[t := True] | None \<Rightarrow> tokens st) @ [False])"
  by (simp add: onSearch_def Let_def resetInput_def cancel_def newCancellationToken_def
      split: option.splits)

lemma lastToken_onSearch:
  "lastSearchCancellationToken (onSearch sc ov st) =
     (if messageOf sc ov = [] then lastSearchCancellationToken st else Some (length (tokens st)))"
  by (simp add: onSearch_def Let_def resetInput_def cancel_def newCancellationToken_def
      split: option.splits)

lemma requests_onSearch:
  "messageOf sc ov \<noteq> [] \<Longrightarrow>
   requests (onSearch sc ov st) = requests st @
     [\<lparr>req_query = messageOf sc ov, req_agentic = ov_agentic ov, req_token = length (tokens st),
       req_selectedSearchType =
         (case ov_searchType ov of Some t \<Rightarrow> t | None \<Rightarrow> selectedSearchType sc),
       req_offset = (case ov_offset ov of Some off \<Rightarrow> off | None \<Rightarrow> defaultOffset sc)\<rparr>]"
  by (simp add: onSearch_def Let_def resetInput_def cancel_def newCancellationToken_def
      split: option.splits)

lemma searchState_onSearch:
  "searchState (onSearch sc ov st) = (if messageOf sc ov = [] then searchState st else Searching)"
  by (simp add: onSearch_def Let_def resetInput_def cancel_def newCancellationToken_def
      split: option.splits)

lemma list_update_True: "T < length xs \<Longrightarrow> xs ! T \<Longrightarrow> (xs[i := True]) ! T"
  by (cases "i = T") simp_all

lemma cancelled_step:
  "isCancellationRequested st T \<Longrightarrow> isCancellationRequested (step st a) T"
proof (cases a)
  case (Search sc ov)
  assume c: "isCancellationRequested st T"
  then show ?thesis
    unfolding Search
    by (auto simp: isCancellationRequested_def tokens_onSearch nth_append list_update_True
        split: option.splits)
qed (simp_all add: isCancellationRequested_def)

lemma cancelled_run:
  "isCancellationRequested st T \<Longrightarrow> isCancellationRequested (run acts st) T"
  unfolding run_def by (induction acts arbitrary: st) (simp_all add: cancelled_step)

lemma dispatch_cancelled:
  "isCancellationRequested st T \<Longrightarrow> dispatch T sc now ev st = st"
  by (simp add: dispatch_def cancellable_def)

lemma tokenAllocated_step: "tokenAllocated st \<Longrightarrow> tokenAllocated (step st a)"
  by (cases a)
    (auto simp: tokenAllocated_def tokens_onSearch lastToken_onSearch split: option.splits)

lemma tokenAllocated_run: "tokenAllocated st \<Longrightarrow> tokenAllocated (run acts st)"
  unfolding run_def by (induction acts arbitrary: st) (simp_all add: tokenAllocated_step)

lemma onSearch_cancels_previous:
  assumes "messageOf sc ov \<noteq> []" "tokenAllocated st" "lastSearchCancellationToken st = Some t"
  shows "isCancellationRequested (onSearch sc ov st) t"
  using assms
  by (simp add: isCancellationRequested_def tokens_onSearch tokenAllocated_def nth_append)

lemma onSearch_fresh_token:
  assumes "messageOf sc ov \<noteq> []"
  shows "\<not> isCancellationRequested (onSearch sc ov st) (length (tokens st))"
  using assms
  by (simp add: isCancellationRequested_def tokens_onSearch nth_append split: option.splits)

text \<open>
  Claim C3, as the code has it. A callback wrapped with a token that is cancelled does
  not run, and the token stays cancelled whatever happens later, so no later event of
  that stream runs its callback either. A call of \<^verbatim>\<open>onSearch\<close> with a non-empty
  message (the override, or else the query) cancels the current token when there is
  one, creates a fresh token that is not cancelled, makes it the current one and binds
  the callbacks of the request it issues to it; the callbacks of the request before
  are no-ops from then on. A call with an empty message returns at once and changes
  nothing. The current token of a component is always one that was created.
\<close>

theorem onSearch_supersedes_previous_stream:
  "(isCancellationRequested st T \<longrightarrow>
      cancellable T fn st = None \<and> dispatch T sc1 now ev st = st
      \<and> isCancellationRequested (run acts st) T
      \<and> dispatch T sc1 now ev (run acts st) = run acts st)
   \<and> (messageOf sc ov \<noteq> [] \<and> tokenAllocated st \<longrightarrow>
        lastSearchCancellationToken (onSearch sc ov st) = Some (length (tokens st))
        \<and> \<not> isCancellationRequested (onSearch sc ov st) (length (tokens st))
        \<and> length (tokens (onSearch sc ov st)) = Suc (length (tokens st))
        \<and> map req_token (requests (onSearch sc ov st))
            = map req_token (requests st) @ [length (tokens st)]
        \<and> (\<forall>t. lastSearchCancellationToken st = Some t \<longrightarrow>
              t \<noteq> length (tokens st)
              \<and> isCancellationRequested (onSearch sc ov st) t
              \<and> dispatch t sc1 now ev (onSearch sc ov st) = onSearch sc ov st))
   \<and> (messageOf sc ov = [] \<longrightarrow> onSearch sc ov st = st)
   \<and> tokenAllocated (run acts mounted)"
proof (intro conjI impI allI)
  assume c: "isCancellationRequested st T"
  show "cancellable T fn st = None" using c by (simp add: cancellable_def)
  show "dispatch T sc1 now ev st = st" using c by (rule dispatch_cancelled)
  show "isCancellationRequested (run acts st) T" using c by (rule cancelled_run)
  then show "dispatch T sc1 now ev (run acts st) = run acts st" by (rule dispatch_cancelled)
next
  assume a: "messageOf sc ov \<noteq> [] \<and> tokenAllocated st"
  show "lastSearchCancellationToken (onSearch sc ov st) = Some (length (tokens st))"
    using a by (simp add: lastToken_onSearch)
  show "\<not> isCancellationRequested (onSearch sc ov st) (length (tokens st))"
    using a by (simp add: onSearch_fresh_token)
  show "length (tokens (onSearch sc ov st)) = Suc (length (tokens st))"
    using a by (simp add: tokens_onSearch split: option.splits)
  show "map req_token (requests (onSearch sc ov st)) = map req_token (requests st) @ [length (tokens st)]"
    using a by (simp add: requests_onSearch)
  fix t assume t: "lastSearchCancellationToken st = Some t"
  show "t \<noteq> length (tokens st)" using a t by (auto simp: tokenAllocated_def)
  show c: "isCancellationRequested (onSearch sc ov st) t"
    using a t by (simp add: onSearch_cancels_previous)
  show "dispatch t sc1 now ev (onSearch sc ov st) = onSearch sc ov st"
    using c by (rule dispatch_cancelled)
next
  assume "messageOf sc ov = []"
  then show "onSearch sc ov st = st" by (simp add: onSearch_def)
next
  show "tokenAllocated (run acts mounted)"
    by (rule tokenAllocated_run) (simp add: tokenAllocated_def mounted_def)
qed

lemmas run_defs =
  run_def onSearch_def messageOf_def resetInput_def cancel_def newCancellationToken_def
  dispatch_def cancellable_def isCancellationRequested_def callback_defs runTimers_def
  fire_def newSearchState_def mounted_def narrating_def emptyQuery_def fromSearchBar_def
  aDocument_def initialSearchResponse_def Let_def

theorem onSearch_supersedes_previous_stream_witness:
  "messageOf narrating fromSearchBar \<noteq> []
   \<and> tokenAllocated (run [Search narrating fromSearchBar] mounted)
   \<and> lastSearchCancellationToken (run [Search narrating fromSearchBar] mounted) = Some 0
   \<and> lastSearchCancellationToken
        (onSearch narrating fromSearchBar (run [Search narrating fromSearchBar] mounted)) = Some 1
   \<and> isCancellationRequested
        (onSearch narrating fromSearchBar (run [Search narrating fromSearchBar] mounted)) 0
   \<and> dispatch 0 narrating 50 (AnswerPiece ''x'')
        (onSearch narrating fromSearchBar (run [Search narrating fromSearchBar] mounted))
      = onSearch narrating fromSearchBar (run [Search narrating fromSearchBar] mounted)
   \<and> cancellable 0 (handler narrating 50 (AnswerPiece ''x''))
        (onSearch narrating fromSearchBar (run [Search narrating fromSearchBar] mounted)) = None
   \<and> messageOf emptyQuery fromSearchBar = []
   \<and> onSearch emptyQuery fromSearchBar (run [Search narrating fromSearchBar] mounted)
      = run [Search narrating fromSearchBar] mounted"
proof -
  let ?st1 = "run [Search narrating fromSearchBar] mounted"
  let ?st2 = "onSearch narrating fromSearchBar ?st1"
  have m: "messageOf narrating fromSearchBar \<noteq> []"
    by (simp add: messageOf_def narrating_def fromSearchBar_def)
  have e: "messageOf emptyQuery fromSearchBar = []"
    by (simp add: messageOf_def emptyQuery_def narrating_def fromSearchBar_def)
  have a: "tokenAllocated ?st1"
    using onSearch_supersedes_previous_stream [where acts = "[Search narrating fromSearchBar]"]
    by simp
  have l: "lastSearchCancellationToken ?st1 = Some 0"
    by (simp add: run_def lastToken_onSearch m mounted_def)
  have n: "length (tokens ?st1) = 1"
    by (simp add: run_def tokens_onSearch m mounted_def)
  have c: "isCancellationRequested ?st2 0"
    using onSearch_supersedes_previous_stream
      [where sc = narrating and ov = fromSearchBar and st = ?st1] m a l
    by blast
  show ?thesis
    using m e a l n c
      onSearch_supersedes_previous_stream
        [where sc = narrating and ov = fromSearchBar and st = ?st1]
      onSearch_supersedes_previous_stream
        [where sc = emptyQuery and ov = fromSearchBar and st = ?st1]
      onSearch_supersedes_previous_stream
        [where st = ?st2 and T = 0 and ?sc1.0 = narrating and now = 50
           and ev = "AnswerPiece ''x''" and fn = "handler narrating 50 (AnswerPiece ''x'')"
           and acts = "[]"]
    by simp
qed

text \<open>
  Claim C3 as stated fails for a call of \<^verbatim>\<open>onSearch\<close> with an empty query: the guard
  at its head returns before the token is touched. After a first query, such a call
  leaves token 0 current and not cancelled, and the first stream's callbacks still run.
\<close>

theorem onSearch_empty_query_counterexample:
  "lastSearchCancellationToken (run [Search narrating fromSearchBar] mounted) = Some 0
   \<and> \<not> isCancellationRequested
        (run [Search narrating fromSearchBar, Search emptyQuery fromSearchBar] mounted) 0
   \<and> lastSearchCancellationToken
        (run [Search narrating fromSearchBar, Search emptyQuery fromSearchBar] mounted) = Some 0
   \<and> tokens (run [Search narrating fromSearchBar, Search emptyQuery fromSearchBar] mounted)
      = [False]
   \<and> answer (searchResponse
        (run [Search narrating fromSearchBar, Search emptyQuery fromSearchBar,
              Stream 0 narrating 50 (AnswerPiece ''x'')] mounted)) = Some ''x''"
  by (simp add: run_defs)

section \<open>An empty document list\<close>

lemma updateDocs_empty_Input: "searchState (updateDocs sc now [] st) = Input"
  by (simp add: updateDocs_def Let_def)

lemma updateDocs_timers:
  "timers (updateDocs sc now ds st) =
     (if agentic sc then timers st @ [(now + 1500, ToReading), (now + 4500, ToAnalyzing)]
      else timers st)"
  by (simp add: updateDocs_def setTimeout_def Let_def)

text \<open>
  Claim C4, as the code has it. A documents event with an empty list sets the phase to
  \<^verbatim>\<open>"input"\<close> at once. With narration the same event has set the two timers, which are
  not cleared; each of them leaves a phase that is \<^verbatim>\<open>"input"\<close> when it fires
  unchanged, so letting any amount of time pass after the event, with nothing else
  happening, leaves the phase \<^verbatim>\<open>"input"\<close>.
\<close>

theorem updateDocs_empty_returns_to_input:
  "searchState (updateDocs sc now [] st) = Input
   \<and> (agentic sc \<longrightarrow>
        timers (updateDocs sc now [] st)
        = timers st @ [(now + 1500, ToReading), (now + 4500, ToAnalyzing)])
   \<and> newSearchState Input Reading = Input \<and> newSearchState Input Analyzing = Input
   \<and> (searchState s = Input \<longrightarrow>
        searchState (fire t ToReading s) = Input \<and> searchState (fire t ToAnalyzing s) = Input)
   \<and> searchState (runTimers t (updateDocs sc now [] st)) = Input
   \<and> searchState (runTimers t' (runTimers t (updateDocs sc now [] st))) = Input"
  by (simp add: updateDocs_empty_Input updateDocs_timers runTimers_Input searchState_fire
      newSearchState_def)

theorem updateDocs_empty_returns_to_input_witness:
  "agentic narrating
   \<and> searchState (run [Search narrating fromSearchBar] mounted) = Searching
   \<and> searchState (updateDocs narrating 0 [] (run [Search narrating fromSearchBar] mounted)) = Input
   \<and> timers (updateDocs narrating 0 [] (run [Search narrating fromSearchBar] mounted))
      = [(1500, ToReading), (4500, ToAnalyzing)]
   \<and> searchState (runTimers 1500
        (updateDocs narrating 0 [] (run [Search narrating fromSearchBar] mounted))) = Input
   \<and> searchState (runTimers 4500 (runTimers 1500
        (updateDocs narrating 0 [] (run [Search narrating fromSearchBar] mounted)))) = Input
   \<and> searchState mounted = Input
   \<and> searchState (fire 1500 ToReading mounted) = Input
   \<and> searchState (fire 4500 ToAnalyzing mounted) = Input"
proof -
  have a: "agentic narrating" by (simp add: narrating_def)
  have i: "searchState mounted = Input" by (simp add: mounted_def)
  have s: "searchState (run [Search narrating fromSearchBar] mounted) = Searching"
    by (simp add: run_def searchState_onSearch messageOf_def narrating_def fromSearchBar_def)
  have t: "timers (run [Search narrating fromSearchBar] mounted) = []"
    by (simp add: run_defs)
  show ?thesis
    using a s t i
      updateDocs_empty_returns_to_input
        [where sc = narrating and now = 0 and st = "run [Search narrating fromSearchBar] mounted"
           and t = 1500 and t' = 4500 and s = mounted]
      updateDocs_empty_returns_to_input [where s = mounted and t = 4500]
    by simp
qed

text \<open>
  Claim C4 as stated fails when a new query starts before the timers are due: the new
  query sets the phase to \<^verbatim>\<open>"searching"\<close>, and the timers the empty document list had
  set then move it to \<^verbatim>\<open>"reading"\<close> and to \<^verbatim>\<open>"analyzing"\<close>.
\<close>

theorem stale_timer_counterexample:
  "searchState (run [Search narrating fromSearchBar, Stream 0 narrating 0 (DocsEv [])] mounted)
     = Input
   \<and> timers (run [Search narrating fromSearchBar, Stream 0 narrating 0 (DocsEv [])] mounted)
     = [(1500, ToReading), (4500, ToAnalyzing)]
   \<and> searchState (run [Search narrating fromSearchBar, Stream 0 narrating 0 (DocsEv []),
        Search narrating fromSearchBar] mounted) = Searching
   \<and> searchState (run [Search narrating fromSearchBar, Stream 0 narrating 0 (DocsEv []),
        Search narrating fromSearchBar, Timers 1500] mounted) = Reading
   \<and> searchState (run [Search narrating fromSearchBar, Stream 0 narrating 0 (DocsEv []),
        Search narrating fromSearchBar, Timers 1500, Timers 4500] mounted) = Analyzing"
  by (simp add: run_defs)

section \<open>Pacing of the reading and analyzing phases\<close>

text \<open>
  Claim C5, as the code has it. With narration, a documents event sets a timer for
  \<^verbatim>\<open>"reading"\<close> 1500 ms and a timer for \<^verbatim>\<open>"analyzing"\<close> 4500 ms after the event is
  received (not after the query started). A non-empty list leaves the phase as it is
  when narration is not disabled. A timer that fires in a phase other than \<^verbatim>\<open>"input"\<close>
  sets its phase, and the one for \<^verbatim>\<open>"analyzing"\<close> records the time it fires as the
  analysis start. So, with no other timer pending and nothing else happening, the phase
  is unchanged before 1500 ms, \<^verbatim>\<open>"reading"\<close> from 1500 ms, and \<^verbatim>\<open>"analyzing"\<close> from
  4500 ms after the event, with the analysis start recorded as that moment.
\<close>

theorem updateDocs_schedules_reading_and_analyzing:
  "(agentic sc \<longrightarrow>
      timers (updateDocs sc now ds st)
      = timers st @ [(now + 1500, ToReading), (now + 4500, ToAnalyzing)])
   \<and> (ds \<noteq> [] \<and> \<not> disabledAgentic sc \<longrightarrow>
        searchState (updateDocs sc now ds st) = searchState st)
   \<and> (searchState s \<noteq> Input \<longrightarrow>
        searchState (fire t ToReading s) = Reading
        \<and> searchState (fire t ToAnalyzing s) = Analyzing)
   \<and> analyzeStartTime (fire t ToAnalyzing s) = t
   \<and> (agentic sc \<and> \<not> disabledAgentic sc \<and> ds \<noteq> [] \<and> timers st = []
        \<and> searchState st \<noteq> Input \<longrightarrow>
        (\<forall>u. u < now + 1500 \<longrightarrow>
              searchState (runTimers u (updateDocs sc now ds st)) = searchState st)
        \<and> (\<forall>u. now + 1500 \<le> u \<and> u < now + 4500 \<longrightarrow>
              searchState (runTimers u (updateDocs sc now ds st)) = Reading)
        \<and> (\<forall>u. now + 4500 \<le> u \<longrightarrow>
              searchState (runTimers u (updateDocs sc now ds st)) = Analyzing
              \<and> analyzeStartTime (runTimers u (updateDocs sc now ds st)) = now + 4500))"
proof -
  have sched: "agentic sc \<longrightarrow>
      timers (updateDocs sc now ds st)
      = timers st @ [(now + 1500, ToReading), (now + 4500, ToAnalyzing)]"
    by (simp add: updateDocs_timers)
  have keep: "ds \<noteq> [] \<and> \<not> disabledAgentic sc \<longrightarrow>
        searchState (updateDocs sc now ds st) = searchState st"
    by (simp add: updateDocs_def Let_def setTimeout_def)
  have f: "searchState s \<noteq> Input \<longrightarrow>
        searchState (fire t ToReading s) = Reading
        \<and> searchState (fire t ToAnalyzing s) = Analyzing"
    by (simp add: searchState_fire)
  have a: "analyzeStartTime (fire t ToAnalyzing s) = t"
    by (simp add: fire_def Let_def)
  have r: "agentic sc \<and> \<not> disabledAgentic sc \<and> ds \<noteq> [] \<and> timers st = []
        \<and> searchState st \<noteq> Input \<longrightarrow>
        (\<forall>u. u < now + 1500 \<longrightarrow>
              searchState (runTimers u (updateDocs sc now ds st)) = searchState st)
        \<and> (\<forall>u. now + 1500 \<le> u \<and> u < now + 4500 \<longrightarrow>
              searchState (runTimers u (updateDocs sc now ds st)) = Reading)
        \<and> (\<forall>u. now + 4500 \<le> u \<longrightarrow>
              searchState (runTimers u (updateDocs sc now ds st)) = Analyzing
              \<and> analyzeStartTime (runTimers u (updateDocs sc now ds st)) = now + 4500)"
    by (simp add: runTimers_def updateDocs_def setTimeout_def Let_def fire_def newSearchState_def)
  from sched keep f a r show ?thesis by blast
qed

theorem updateDocs_schedules_reading_and_analyzing_witness:
  "agentic narrating \<and> \<not> disabledAgentic narrating \<and> [aDocument] \<noteq> []
   \<and> timers (run [Search narrating fromSearchBar] mounted) = []
   \<and> searchState (run [Search narrating fromSearchBar] mounted) \<noteq> Input
   \<and> timers (updateDocs narrating 1000 [aDocument] (run [Search narrating fromSearchBar] mounted))
      = [(2500, ToReading), (5500, ToAnalyzing)]
   \<and> searchState (runTimers 2499
        (updateDocs narrating 1000 [aDocument] (run [Search narrating fromSearchBar] mounted)))
      = Searching
   \<and> searchState (runTimers 2500
        (updateDocs narrating 1000 [aDocument] (run [Search narrating fromSearchBar] mounted)))
      = Reading
   \<and> searchState (runTimers 5500
        (updateDocs narrating 1000 [aDocument] (run [Search narrating fromSearchBar] mounted)))
      = Analyzing
   \<and> analyzeStartTime (runTimers 5500
        (updateDocs narrating 1000 [aDocument] (run [Search narrating fromSearchBar] mounted)))
      = 5500
   \<and> searchState (updateDocs narrating 1000 [aDocument]
        (run [Search narrating fromSearchBar] mounted)) = Searching
   \<and> searchState (fire 2500 ToReading (run [Search narrating fromSearchBar] mounted)) = Reading
   \<and> searchState (fire 5500 ToAnalyzing (run [Search narrating fromSearchBar] mounted))
      = Analyzing"
proof -
  let ?st = "run [Search narrating fromSearchBar] mounted"
  have h: "agentic narrating" "\<not> disabledAgentic narrating" "[aDocument] \<noteq> []"
    by (simp_all add: narrating_def)
  have t: "timers ?st = []" by (simp add: run_defs)
  have s: "searchState ?st = Searching"
    by (simp add: run_def searchState_onSearch messageOf_def narrating_def fromSearchBar_def)
  show ?thesis
    using h t s
      updateDocs_schedules_reading_and_analyzing
        [where sc = narrating and now = 1000 and ds = "[aDocument]" and st = ?st
           and s = ?st and t = 2500]
      updateDocs_schedules_reading_and_analyzing [where s = ?st and t = 5500]
    by simp
qed

text \<open>
  Claim C5 as stated fails when the documents arrive later than the query starts. For a
  query submitted at time 0 whose documents arrive at 1000, \<^verbatim>\<open>"analyzing"\<close> is due at
  5500: at 4500 the phase is \<^verbatim>\<open>"reading"\<close> and no analysis start is recorded. Were
  they to arrive at 2000 it would be due at 6500.
\<close>

theorem analyzing_from_document_receipt_counterexample:
  "timers (run [Search narrating fromSearchBar,
                Stream 0 narrating 1000 (DocsEv [aDocument])] mounted)
     = [(2500, ToReading), (5500, ToAnalyzing)]
   \<and> searchState (run [Search narrating fromSearchBar,
        Stream 0 narrating 1000 (DocsEv [aDocument]), Timers 4500] mounted) = Reading
   \<and> analyzeStartTime (run [Search narrating fromSearchBar,
        Stream 0 narrating 1000 (DocsEv [aDocument]), Timers 4500] mounted) = 0
   \<and> searchState (run [Search narrating fromSearchBar,
        Stream 0 narrating 1000 (DocsEv [aDocument]), Timers 4500, Timers 5500] mounted)
     = Analyzing
   \<and> analyzeStartTime (run [Search narrating fromSearchBar,
        Stream 0 narrating 1000 (DocsEv [aDocument]), Timers 4500, Timers 5500] mounted) = 5500
   \<and> timers (run [Search narrating fromSearchBar,
                Stream 0 narrating 2000 (DocsEv [aDocument])] mounted)
     = [(3500, ToReading), (6500, ToAnalyzing)]"
  by (simp add: run_defs)

section \<open>Pacing of the answer phase\<close>

lemma Math_ceil_div_ceiling: "Math_ceil_div a b = \<lceil>real_of_int a / real_of_int b\<rceil>"
  by (simp add: Math_ceil_div_def ceiling_divide_eq_div)

lemma Math_ceil_div_rest: "Math_ceil_div e b * b - e = (- e) mod b"
proof -
  have "(- e) div b * b + (- e) mod b = - e" by (rule div_mult_mod_eq)
  then have "- ((- e) div b) * b - e = (- e) mod b" by linarith
  then show ?thesis unfolding Math_ceil_div_def .
qed

lemma Math_ceil_div_bounds:
  "0 \<le> Math_ceil_div e 1500 * 1500 - e \<and> Math_ceil_div e 1500 * 1500 - e < 1500"
  unfolding Math_ceil_div_rest by simp

text \<open>
  What the callback of an answer token does with the analysis start it sees: when that
  is not 0 it sets one timer for the guarded transition to \<^verbatim>\<open>"generating"\<close>, due at the
  seen start plus \<open>ceiling (elapsed / 1500) * 1500\<close> milliseconds, which is the first
  moment not before the arrival that lies a multiple of 1500 ms after the seen start.
\<close>

lemma updateCurrentAnswer_seen_start:
  assumes "seenAnalyzeStartTime sc \<noteq> 0"
  shows "\<exists>due. timers (updateCurrentAnswer sc now a st) = timers st @ [(due, ToGenerating)]
     \<and> due = seenAnalyzeStartTime sc
             + \<lceil>real_of_int (now - seenAnalyzeStartTime sc) / 1500\<rceil> * 1500
     \<and> now \<le> due \<and> due < now + 1500
     \<and> (due - seenAnalyzeStartTime sc) mod 1500 = 0
     \<and> searchState (fire due ToGenerating s) = (if searchState s = Input then Input else Generating)
     \<and> (seenAnalyzeStartTime sc = 4500 \<and> now = 5000 \<longrightarrow> due = 6000)"
proof -
  let ?e = "now - seenAnalyzeStartTime sc"
  let ?due = "now + max 0 (Math_ceil_div ?e 1500 * 1500 - ?e)"
  have b: "0 \<le> Math_ceil_div ?e 1500 * 1500 - ?e" "Math_ceil_div ?e 1500 * 1500 - ?e < 1500"
    using Math_ceil_div_bounds [of ?e] by simp_all
  have t: "timers (updateCurrentAnswer sc now a st) = timers st @ [(?due, ToGenerating)]"
    using assms by (simp add: updateCurrentAnswer_def setTimeout_def Let_def)
  have d: "?due = seenAnalyzeStartTime sc + Math_ceil_div ?e 1500 * 1500"
    using b by simp
  have c: "Math_ceil_div ?e 1500 = \<lceil>real_of_int ?e / 1500\<rceil>"
    using Math_ceil_div_ceiling [of ?e 1500] by simp
  have f: "searchState (fire ?due ToGenerating s) = (if searchState s = Input then Input else Generating)"
    by (simp add: fire_def newSearchState_def)
  have ex: "seenAnalyzeStartTime sc = 4500 \<and> now = 5000 \<longrightarrow> ?due = 6000"
    by (simp add: Math_ceil_div_def)
  show ?thesis
    apply (rule exI [of _ ?due])
    using t d c b f ex by simp
qed

lemma renderedIn_mounted: "renderedIn mounted narrating = narrating"
  by (simp add: renderedIn_def mounted_def narrating_def)

lemma firstQuery_run:
  "run firstQuery mounted =
     \<lparr>searchResponse = initialSearchResponse\<lparr>documents := Some [aDocument]\<rparr>,
      searchState = Analyzing, analyzeStartTime = 4500, isFetching = True, comments = None,
      contentEnriched = False, sweep = False, firstSearch = False,
      searchAnswerExpanded = False, agenticResults = Some True, tokens = [False],
      lastSearchCancellationToken = Some 0, timers = [],
      requests = [\<lparr>req_query = ''q'', req_agentic = Some True, req_token = 0,
                    req_selectedSearchType = ''semantic'', req_offset = 0\<rparr>]\<rparr>"
  by (simp add: firstQuery_def renderedIn_mounted) (simp add: run_defs)

lemma betweenQueries_eq:
  "betweenQueries =
     \<lparr>searchResponse = initialSearchResponse
        \<lparr>answer := Some ''The'', quotes := Some [], documents := Some [aDocument]\<rparr>,
      searchState = Input, analyzeStartTime = 4500, isFetching = True, comments = None,
      contentEnriched = False, sweep = False, firstSearch = False,
      searchAnswerExpanded = False, agenticResults = Some True, tokens = [False],
      lastSearchCancellationToken = Some 0, timers = [],
      requests = [\<lparr>req_query = ''q'', req_agentic = Some True, req_token = 0,
                    req_selectedSearchType = ''semantic'', req_offset = 0\<rparr>]\<rparr>"
  by (simp add: betweenQueries_def firstQuery_def firstToken_def renderedIn_mounted)
     (simp add: run_defs)

text \<open>
  Claim C1 does not hold of the code. The callbacks of a query are those of the render
  in which the query was submitted, and the analysis start is only stored later, by
  the timer for \<^verbatim>\<open>"analyzing"\<close>; so an answer token never sees the analysis start of
  its own query. In the first query the analysis start 4500 is recorded when the token
  arrives at 5000, yet the callback sees 0 and sets no timer: at 6000 the phase is still
  \<^verbatim>\<open>"analyzing"\<close>. In the second query the analysis start 104500 is recorded when the
  token arrives at 105000, yet the callback sees the 4500 of the first query: the timer
  it sets is due at 105000, not at the next boundary 106000, and the phase is
  \<^verbatim>\<open>"generating"\<close> at 105000 already.
\<close>

theorem answer_token_sees_stale_analysis_start:
  "analyzeStartTime (run firstQuery mounted) = 4500
   \<and> searchState (run firstQuery mounted) = Analyzing
   \<and> seenAnalyzeStartTime (renderedIn mounted narrating) = 0
   \<and> timers (run (firstQuery @ [firstToken]) mounted) = []
   \<and> searchState (run (firstQuery @ [firstToken, Timers 6000]) mounted) = Analyzing
   \<and> analyzeStartTime (run secondQuery betweenQueries) = 104500
   \<and> searchState (run secondQuery betweenQueries) = Analyzing
   \<and> seenAnalyzeStartTime (renderedIn betweenQueries narrating) = 4500
   \<and> timers (run (secondQuery @ [secondToken]) betweenQueries) = [(105000, ToGenerating)]
   \<and> searchState (run (secondQuery @ [secondToken, Timers 105000]) betweenQueries)
      = Generating"
proof -
  have r: "renderedIn betweenQueries narrating = narrating\<lparr>seenAnalyzeStartTime := 4500\<rparr>"
    by (simp add: renderedIn_def betweenQueries_eq)
  have first: "analyzeStartTime (run firstQuery mounted) = 4500"
    "searchState (run firstQuery mounted) = Analyzing"
    by (simp_all add: firstQuery_run)
  have seen0: "seenAnalyzeStartTime (renderedIn mounted narrating) = 0"
    by (simp add: renderedIn_def mounted_def)
  have tok1: "timers (run (firstQuery @ [firstToken]) mounted) = []"
    "searchState (run (firstQuery @ [firstToken, Timers 6000]) mounted) = Analyzing"
    by (simp_all add: firstQuery_def firstToken_def renderedIn_mounted) (simp_all add: run_defs)
  have second: "analyzeStartTime (run secondQuery betweenQueries) = 104500"
    "searchState (run secondQuery betweenQueries) = Analyzing"
    by (simp_all add: secondQuery_def r) (simp_all add: betweenQueries_eq run_defs)
  have seen1: "seenAnalyzeStartTime (renderedIn betweenQueries narrating) = 4500"
    by (simp add: r)
  have tok2: "timers (run (secondQuery @ [secondToken]) betweenQueries) = [(105000, ToGenerating)]"
    "searchState (run (secondQuery @ [secondToken, Timers 105000]) betweenQueries) = Generating"
    by (simp_all add: secondQuery_def secondToken_def r)
       (simp_all add: betweenQueries_eq run_defs Math_ceil_div_def)
  from first seen0 tok1 second seen1 tok2 show ?thesis by simp
qed

section \<open>The phase over a query\<close>

lemma narrated_fire: "narrated (searchState st) \<Longrightarrow> narrated (searchState (fire t cb st))"
  by (cases cb) (simp_all add: searchState_fire narrated_def)

lemma narrated_foldl_fire:
  "narrated (searchState st) \<Longrightarrow>
   narrated (searchState (foldl (\<lambda>s (due, cb). fire due cb s) st ts))"
  by (induction ts arbitrary: st) (auto simp: case_prod_beta narrated_fire)

lemma narrated_handler:
  "narrated (searchState st) \<Longrightarrow> narrated (searchState (handler sc now ev st))"
  by (cases ev) (simp_all add: callback_defs Let_def narrated_def)

lemma narrated_step: "narrated (searchState st) \<Longrightarrow> narrated (searchState (step st a))"
proof (cases a)
  case (Search sc ov)
  assume "narrated (searchState st)"
  then show ?thesis unfolding Search by (simp add: searchState_onSearch narrated_def)
next
  case (Stream tok sc now ev)
  assume "narrated (searchState st)"
  then show ?thesis
    unfolding Stream
    by (simp add: dispatch_def cancellable_def narrated_handler)
next
  case (Timers t)
  assume "narrated (searchState st)"
  then show ?thesis
    unfolding Timers by (simp add: runTimers_def narrated_foldl_fire)
qed

lemma narrated_run: "narrated (searchState st) \<Longrightarrow> narrated (searchState (run acts st))"
  unfolding run_def by (induction acts arbitrary: st) (simp_all add: narrated_step)

text \<open>
  Claim C8, as the code has it. A query that starts sets the phase to \<^verbatim>\<open>"searching"\<close>.
  An error, quotes or message id event and an empty document list set it to
  \<^verbatim>\<open>"input"\<close>; so do any documents, relevance or finished event when narration is
  disabled. When it is not, a relevance event sets \<^verbatim>\<open>"analyzing"\<close> whatever the phase
  is. Answer, suggestion, selected index and comment events leave the phase alone. A
  timer never moves a phase that is \<^verbatim>\<open>"input"\<close>, and sets its own phase from any
  other; so the phase need not advance in the order of the type. The phases
  \<^verbatim>\<open>"summarizing"\<close> and \<^verbatim>\<open>"citing"\<close> never occur.
\<close>

theorem phase_resets_and_guards:
  "(messageOf sc ov \<noteq> [] \<longrightarrow> searchState (onSearch sc ov st) = Searching)
   \<and> searchState (handler sc now (ErrorEv e) st) = Input
   \<and> searchState (handler sc now (QuotesEv qs) st) = Input
   \<and> searchState (handler sc now (MessageAndThreadIdEv m c) st) = Input
   \<and> searchState (handler sc now (DocsEv []) st) = Input
   \<and> (disabledAgentic sc \<longrightarrow>
        searchState (handler sc now (DocsEv ds) st) = Input
        \<and> searchState (handler sc now (DocumentRelevanceEv r) st) = Input
        \<and> searchState (handler sc now FinishedEv st) = Input)
   \<and> (\<not> disabledAgentic sc \<longrightarrow>
        searchState (handler sc now (DocumentRelevanceEv r) st) = Analyzing
        \<and> searchState (handler sc now FinishedEv st) = searchState st)
   \<and> searchState (handler sc now (AnswerPiece a) st) = searchState st
   \<and> searchState (handler sc now (SuggestedSearchTypeEv ty) st) = searchState st
   \<and> searchState (handler sc now (SuggestedFlowTypeEv ty) st) = searchState st
   \<and> searchState (handler sc now (SelectedDocIndicesEv ixs) st) = searchState st
   \<and> searchState (handler sc now (CommentsEv cs) st) = searchState st
   \<and> (searchState st = Input \<longrightarrow> searchState (runTimers t st) = Input)
   \<and> (searchState st \<noteq> Input \<longrightarrow>
        searchState (fire t ToReading st) = Reading
        \<and> searchState (fire t ToAnalyzing st) = Analyzing
        \<and> searchState (fire t ToGenerating st) = Generating)
   \<and> searchState (run acts mounted) \<noteq> Summarizing
   \<and> searchState (run acts mounted) \<noteq> Citing"
proof -
  have n: "narrated (searchState (run acts mounted))"
    by (rule narrated_run) (simp add: narrated_def mounted_def)
  show ?thesis
    using n
    by (simp add: callback_defs Let_def searchState_onSearch runTimers_Input searchState_fire
        narrated_def)
qed

theorem phase_resets_and_guards_witness:
  "messageOf narrating fromSearchBar \<noteq> []
   \<and> searchState (onSearch narrating fromSearchBar mounted) = Searching
   \<and> \<not> disabledAgentic narrating
   \<and> searchState (handler narrating 100 (DocumentRelevanceEv ''r'')
        (onSearch narrating fromSearchBar mounted)) = Analyzing
   \<and> disabledAgentic (narrating\<lparr>disabledAgentic := True\<rparr>)
   \<and> searchState (handler (narrating\<lparr>disabledAgentic := True\<rparr>) 100 (DocsEv [aDocument])
        (onSearch narrating fromSearchBar mounted)) = Input
   \<and> searchState mounted = Input
   \<and> searchState (runTimers 1500 mounted) = Input
   \<and> searchState (onSearch narrating fromSearchBar mounted) \<noteq> Input
   \<and> searchState (fire 1500 ToReading (onSearch narrating fromSearchBar mounted)) = Reading"
proof -
  have m: "messageOf narrating fromSearchBar \<noteq> []"
    by (simp add: messageOf_def narrating_def fromSearchBar_def)
  have d: "\<not> disabledAgentic narrating" "disabledAgentic (narrating\<lparr>disabledAgentic := True\<rparr>)"
    by (simp_all add: narrating_def)
  have i: "searchState mounted = Input" by (simp add: mounted_def)
  have s: "searchState (onSearch narrating fromSearchBar mounted) = Searching"
    using m phase_resets_and_guards [where sc = narrating and ov = fromSearchBar and st = mounted]
    by blast
  show ?thesis
    using m d i s
      phase_resets_and_guards [where sc = narrating and now = 100 and r = "''r''"
        and st = "onSearch narrating fromSearchBar mounted" and t = 1500]
      phase_resets_and_guards [where sc = "narrating\<lparr>disabledAgentic := True\<rparr>" and now = 100
        and ds = "[aDocument]" and st = "onSearch narrating fromSearchBar mounted"]
      phase_resets_and_guards [where st = mounted and t = 1500]
    by simp
qed

text \<open>
  Claim C8 as stated fails twice. At query start the phase is \<^verbatim>\<open>"searching"\<close>, not
  \<^verbatim>\<open>"input"\<close>. And within one query, with no terminal event, a relevance event that
  arrives 100 ms after the documents sets \<^verbatim>\<open>"analyzing"\<close>, after which the timer due
  at 1500 ms moves the phase back to \<^verbatim>\<open>"reading"\<close>.
\<close>

theorem phase_not_monotone_counterexample:
  "searchState (run [Search narrating fromSearchBar] mounted) = Searching
   \<and> searchState (run [Search narrating fromSearchBar,
        Stream 0 narrating 0 (DocsEv [aDocument]),
        Stream 0 narrating 100 (DocumentRelevanceEv ''r'')] mounted) = Analyzing
   \<and> searchState (run [Search narrating fromSearchBar,
        Stream 0 narrating 0 (DocsEv [aDocument]),
        Stream 0 narrating 100 (DocumentRelevanceEv ''r''), Timers 1500] mounted) = Reading
   \<and> rank Reading < rank Analyzing"
  by (simp add: run_defs)

section \<open>Validation of the prompts\<close>

lemma trim_Nil_iff: "trim s = [] \<longleftrightarrow> blank s"
proof
  assume t: "trim s = []"
  show "blank s"
  proof (rule ccontr)
    assume "\<not> blank s"
    then have ne: "dropWhile isWhiteSpace s \<noteq> []"
      by (simp add: blank_def list_all_iff dropWhile_eq_Nil_conv)
    then have "\<not> isWhiteSpace (hd (dropWhile isWhiteSpace s))" by (rule hd_dropWhile)
    moreover have "hd (dropWhile isWhiteSpace s) \<in> set (rev (dropWhile isWhiteSpace s))"
      using ne by simp
    moreover from t have "\<forall>x \<in> set (rev (dropWhile isWhiteSpace s)). isWhiteSpace x"
      by (simp add: trim_def dropWhile_eq_Nil_conv)
    ultimately show False by blast
  qed
next
  assume "blank s"
  then have d: "dropWhile isWhiteSpace s = []"
    by (simp add: blank_def list_all_iff)
  show "trim s = []" unfolding trim_def d by simp
qed

lemma blank_Nil: "blank []"
  by (simp add: blank_def)

lemma systemPromptOrTaskPrompt_blank:
  "systemPromptOrTaskPrompt v =
     (if blank (system_prompt v) \<and> blank (task_prompt v)
      then Some \<lparr>path = ''system_prompt'',
                 message = ''Must provide either System Prompt or Additional Instructions''\<rparr>
      else None)"
proof -
  have "(s \<noteq> [] \<and> length (trim s) > 0) \<longleftrightarrow> \<not> blank s" for s
    using trim_Nil_iff [of s] blank_Nil by auto
  then show ?thesis by (simp add: systemPromptOrTaskPrompt_def Let_def)
qed

text \<open>
  Claim C9. When the system prompt and the task prompt are both empty or white space
  only, the schema's test gives one error, at the path \<^verbatim>\<open>system_prompt\<close>, with the
  message of the source, and the form is not submitted: the result is the errors, this
  one after those of the single fields, and the submit handler is not called. When
  either prompt has a character that is not white space the test passes, and with no
  other error the handler is called.
\<close>

theorem prompt_required_before_submission:
  "(blank (system_prompt v) \<and> blank (task_prompt v) \<longrightarrow>
      systemPromptOrTaskPrompt v
        = Some \<lparr>path = ''system_prompt'',
                 message = ''Must provide either System Prompt or Additional Instructions''\<rparr>
      \<and> submitForm fe ed v
        = Inl (fe @ [\<lparr>path = ''system_prompt'',
                 message = ''Must provide either System Prompt or Additional Instructions''\<rparr>]))
   \<and> (\<not> blank (system_prompt v) \<or> \<not> blank (task_prompt v) \<longrightarrow>
        systemPromptOrTaskPrompt v = None
        \<and> submitForm [] ed v = Inr (onSubmit ed v))"
  by (simp add: systemPromptOrTaskPrompt_blank submitForm_def Let_def)

theorem prompt_required_before_submission_witness:
  "blank (system_prompt (someValues\<lparr>system_prompt := '' '', task_prompt := []\<rparr>))
   \<and> blank (task_prompt (someValues\<lparr>system_prompt := '' '', task_prompt := []\<rparr>))
   \<and> submitForm [] anEditor (someValues\<lparr>system_prompt := '' '', task_prompt := []\<rparr>)
      = Inl [\<lparr>path = ''system_prompt'',
               message = ''Must provide either System Prompt or Additional Instructions''\<rparr>]
   \<and> \<not> blank (system_prompt someValues)
   \<and> systemPromptOrTaskPrompt someValues = None
   \<and> submitForm [] anEditor someValues = Inr (onSubmit anEditor someValues)"
proof -
  have b: "blank (system_prompt (someValues\<lparr>system_prompt := '' '', task_prompt := []\<rparr>))"
    "blank (task_prompt (someValues\<lparr>system_prompt := '' '', task_prompt := []\<rparr>))"
    by (simp_all add: blank_def isWhiteSpace_def)
  have n: "\<not> blank (system_prompt someValues)"
    by (simp add: blank_def isWhiteSpace_def someValues_def)
  show ?thesis
    using b n
      prompt_required_before_submission
        [where v = "someValues\<lparr>system_prompt := '' '', task_prompt := []\<rparr>"
           and fe = "[]" and ed = anEditor]
      prompt_required_before_submission [where v = someValues and ed = anEditor]
    by simp
qed

section \<open>The chunk count that is sent\<close>

text \<open>
  Claim C10, as the code has it. The \<^verbatim>\<open>num_chunks\<close> of a request that is sent is never
  \<^verbatim>\<open>null\<close>. It is the number 0 when the search tool is not enabled. When it is, a form
  value that is \<^verbatim>\<open>null\<close>, the empty string or the number 0 gives 10, and any other form
  value is sent as it is; so the number 0 is not sent.
\<close>

theorem numChunks_sent:
  "requestOf (onSubmit ed v) = Some r \<longrightarrow>
     p_num_chunks r \<noteq> Null
     \<and> (\<not> searchToolEnabled ed v \<longrightarrow> p_num_chunks r = Num 0)
     \<and> (searchToolEnabled ed v
          \<and> (num_chunks v = Null \<or> num_chunks v = Str [] \<or> num_chunks v = Num 0) \<longrightarrow>
          p_num_chunks r = Num 10)
     \<and> (searchToolEnabled ed v
          \<and> num_chunks v \<noteq> Null \<and> num_chunks v \<noteq> Str [] \<and> num_chunks v \<noteq> Num 0 \<longrightarrow>
          p_num_chunks r = num_chunks v)
     \<and> (searchToolEnabled ed v \<longrightarrow> p_num_chunks r \<noteq> Num 0)"
proof
  assume a: "requestOf (onSubmit ed v) = Some r"
  then have r: "p_num_chunks r = numChunks (searchToolEnabled ed v) v"
    by (auto simp: onSubmit_def Let_def split: if_splits)
  show "p_num_chunks r \<noteq> Null
     \<and> (\<not> searchToolEnabled ed v \<longrightarrow> p_num_chunks r = Num 0)
     \<and> (searchToolEnabled ed v
          \<and> (num_chunks v = Null \<or> num_chunks v = Str [] \<or> num_chunks v = Num 0) \<longrightarrow>
          p_num_chunks r = Num 10)
     \<and> (searchToolEnabled ed v
          \<and> num_chunks v \<noteq> Null \<and> num_chunks v \<noteq> Str [] \<and> num_chunks v \<noteq> Num 0 \<longrightarrow>
          p_num_chunks r = num_chunks v)
     \<and> (searchToolEnabled ed v \<longrightarrow> p_num_chunks r \<noteq> Num 0)"
    unfolding r by (cases "num_chunks v") (auto simp: numChunks_def)
qed

theorem numChunks_sent_witness:
  "searchToolEnabled anEditor someValues \<and> num_chunks someValues = Null
   \<and> map_option p_num_chunks (requestOf (onSubmit anEditor someValues)) = Some (Num 10)
   \<and> map_option p_num_chunks
        (requestOf (onSubmit anEditor (someValues\<lparr>num_chunks := Num 0\<rparr>))) = Some (Num 10)
   \<and> map_option p_num_chunks
        (requestOf (onSubmit anEditor (someValues\<lparr>num_chunks := Str ''25''\<rparr>)))
      = Some (Str ''25'')
   \<and> \<not> searchToolEnabled anEditor (someValues\<lparr>enabled_tools_map := [(1, False)]\<rparr>)
   \<and> map_option p_num_chunks
        (requestOf (onSubmit anEditor
           (someValues\<lparr>enabled_tools_map := [(1, False)], num_chunks := Num 5\<rparr>)))
      = Some (Num 0)"
proof -
  have e: "searchToolEnabled anEditor (someValues\<lparr>num_chunks := x\<rparr>)" for x
    by (simp add: searchToolEnabled_def enabledToolIds_def anEditor_def someValues_def)
  have e0: "searchToolEnabled anEditor someValues"
    by (simp add: searchToolEnabled_def enabledToolIds_def anEditor_def someValues_def)
  have d: "\<not> searchToolEnabled anEditor
             (someValues\<lparr>enabled_tools_map := [(1, False)], num_chunks := x\<rparr>)" for x
    by (simp add: searchToolEnabled_def enabledToolIds_def anEditor_def someValues_def)
  have d0: "\<not> searchToolEnabled anEditor (someValues\<lparr>enabled_tools_map := [(1, False)]\<rparr>)"
    by (simp add: searchToolEnabled_def enabledToolIds_def anEditor_def someValues_def)
  have n: "num_chunks someValues = Null" by (simp add: someValues_def)
  have q: "\<exists>r. requestOf (onSubmit anEditor (someValues\<lparr>enabled_tools_map := m, num_chunks := x\<rparr>)) = Some r"
    for m x
    by (simp add: onSubmit_def Let_def anEditor_def someValues_def truthyString_def)
  have q0: "\<exists>r. requestOf (onSubmit anEditor someValues) = Some r"
    by (simp add: onSubmit_def Let_def anEditor_def someValues_def truthyString_def)
  have q1: "\<exists>r. requestOf (onSubmit anEditor (someValues\<lparr>num_chunks := x\<rparr>)) = Some r" for x
    by (simp add: onSubmit_def Let_def anEditor_def someValues_def truthyString_def)
  from q0 obtain r0 where r0: "requestOf (onSubmit anEditor someValues) = Some r0" ..
  from q1 obtain r1 where r1: "requestOf (onSubmit anEditor (someValues\<lparr>num_chunks := Num 0\<rparr>)) = Some r1" ..
  from q1 obtain r2 where r2: "requestOf (onSubmit anEditor (someValues\<lparr>num_chunks := Str ''25''\<rparr>)) = Some r2" ..
  from q obtain r3 where r3: "requestOf (onSubmit anEditor
           (someValues\<lparr>enabled_tools_map := [(1, False)], num_chunks := Num 5\<rparr>)) = Some r3" ..
  have "p_num_chunks r0 = Num 10"
    using numChunks_sent [of anEditor someValues r0] r0 e0 n by simp
  moreover have "p_num_chunks r1 = Num 10"
    using numChunks_sent [of anEditor "someValues\<lparr>num_chunks := Num 0\<rparr>" r1] r1 e by simp
  moreover have "p_num_chunks r2 = Str ''25''"
    using numChunks_sent [of anEditor "someValues\<lparr>num_chunks := Str ''25''\<rparr>" r2] r2 e by simp
  moreover have "p_num_chunks r3 = Num 0"
    using numChunks_sent [of anEditor
        "someValues\<lparr>enabled_tools_map := [(1, False)], num_chunks := Num 5\<rparr>" r3] r3 d
    by simp
  ultimately show ?thesis using r0 r1 r2 r3 e0 d0 n by simp
qed

text \<open>
  Claim C10 as stated fails for a 0 typed into the field: the form value is then the
  string \<^verbatim>\<open>"0"\<close>, which is truthy, and it is sent as the chunk count with the search
  tool enabled.
\<close>

theorem typed_zero_counterexample:
  "searchToolEnabled anEditor (someValues\<lparr>num_chunks := Str ''0''\<rparr>)
   \<and> truthy (Str ''0'')
   \<and> map_option p_num_chunks
        (requestOf (onSubmit anEditor (someValues\<lparr>num_chunks := Str ''0''\<rparr>)))
      = Some (Str ''0'')"
  by (simp add: onSubmit_def numChunks_def searchToolEnabled_def enabledToolIds_def
      truthyString_def anEditor_def someValues_def Let_def)

end
